theory Spec2Isabelle
  imports Main "HOL-Library.AList" "HOL-Library.Log_Nat"
begin

section \<open>Library primitives used by the conversion worker\<close>

text \<open>
  The worker of \<^verbatim>\<open>app.py\<close> calls a handful of functions of the Python standard
  library. They are written out here with the behaviour of CPython on a POSIX system
  (\<^verbatim>\<open>posixpath\<close>): paths are strings, the separator is \<^verbatim>\<open>/\<close>.
\<close>

subsection \<open>\<^verbatim>\<open>str(int)\<close> and string helpers\<close>

definition digit_char :: "nat \<Rightarrow> char" where
  "digit_char d = ''0123456789'' ! d"

text \<open>\<^verbatim>\<open>str(n)\<close> for a non-negative integer: its decimal digits, most significant first.\<close>

fun str_nat :: "nat \<Rightarrow> string" where
  "str_nat n = (if n < 10 then [digit_char n] else str_nat (n div 10) @ [digit_char (n mod 10)])"

declare str_nat.simps [simp del]

text \<open>\<^verbatim>\<open>str.lower()\<close> on the ASCII letters; every other character is left as it is.\<close>

definition lower_char :: "char \<Rightarrow> char" where
  "lower_char c =
     (let k = of_char c :: nat in if 65 \<le> k \<and> k \<le> 90 then char_of (k + 32) else c)"

definition lower :: "string \<Rightarrow> string" where
  "lower s = map lower_char s"

definition endswith :: "string \<Rightarrow> string \<Rightarrow> bool" where
  "endswith s suffix = (length suffix \<le> length s \<and> drop (length s - length suffix) s = suffix)"

text \<open>
  A character of a Python string is a code point; the characters here are the code points
  below 256. \<^verbatim>\<open>s.encode("ascii", "replace")\<close> keeps the code points below 128 and
  puts \<^verbatim>\<open>?\<close> for every other one.
\<close>

definition is_ascii :: "char \<Rightarrow> bool" where
  "is_ascii c = ((of_char c :: nat) < 128)"

definition encode_ascii_replace :: "string \<Rightarrow> string" where
  "encode_ascii_replace s = map (\<lambda>c. if is_ascii c then c else CHR ''?'') s"

text \<open>\<^verbatim>\<open>s.rfind(c)\<close>: the index of the last occurrence of \<open>c\<close>, or \<open>-1\<close>.\<close>

definition rfind :: "string \<Rightarrow> char \<Rightarrow> int" where
  "rfind s c =
     (if c \<in> set s
      then int (length s) - 1 - int (length (takeWhile (\<lambda>x. x \<noteq> c) (rev s)))
      else - 1)"

subsection \<open>\<^verbatim>\<open>os.path\<close>\<close>

text \<open>\<^verbatim>\<open>i = p.rfind('/') + 1; return p[i:]\<close>\<close>

definition basename :: "string \<Rightarrow> string" where
  "basename p = drop (nat (rfind p CHR ''/'' + 1)) p"

text \<open>
  \<^verbatim>\<open>head = p[:i]; if head and head != '/' * len(head): head = head.rstrip('/')\<close>
\<close>

definition dirname :: "string \<Rightarrow> string" where
  "dirname p =
     (let head = take (nat (rfind p CHR ''/'' + 1)) p
      in if head \<noteq> [] \<and> list_ex (\<lambda>c. c \<noteq> CHR ''/'') head
         then rev (dropWhile (\<lambda>c. c = CHR ''/'') (rev head))
         else head)"

text \<open>
  \<^verbatim>\<open>os.path.splitext\<close>: the extension starts at the last dot of the last path
  component, unless only dots stand before it in that component.
\<close>

definition splitext :: "string \<Rightarrow> string \<times> string" where
  "splitext p =
     (let sepIndex = rfind p CHR ''/'';
          dotIndex = rfind p CHR ''.''
      in if dotIndex > sepIndex
            \<and> list_ex (\<lambda>c. c \<noteq> CHR ''.'') (drop (nat (sepIndex + 1)) (take (nat dotIndex) p))
         then (take (nat dotIndex) p, drop (nat dotIndex) p)
         else (p, []))"

text \<open>\<^verbatim>\<open>os.path.join(a, b)\<close> with two arguments.\<close>

definition join :: "string \<Rightarrow> string \<Rightarrow> string" where
  "join a b =
     (if take 1 b = ''/'' then b
      else if a = [] \<or> endswith a ''/'' then a @ b
      else a @ ''/'' @ b)"

section \<open>The filesystem and the collision-avoiding output name\<close>

text \<open>
  Of the filesystem the worker observes which paths exist and which of them are
  directories; it creates directories and writes output files. A path is identified with
  its string.
\<close>

record webp =
  w_source :: string
  w_quality :: int
  w_lossless :: bool
  w_method :: "nat option"
  w_rgb :: bool
  w_exif :: "(nat \<times> string) list"

record world =
  dirs :: "string list"
  files :: "string list"
  written :: "(string \<times> webp) list"
  renamed_files :: "string list"

text \<open>\<^verbatim>\<open>os.path.exists\<close>\<close>

definition path_exists :: "world \<Rightarrow> string \<Rightarrow> bool" where
  "path_exists w p = (p \<in> set (dirs w) \<or> p \<in> set (files w))"

text \<open>The candidate name of the loop body: \<^verbatim>\<open>f"{base_name}_{counter}.webp"\<close>.\<close>

definition candidate :: "string \<Rightarrow> nat \<Rightarrow> string" where
  "candidate base_name counter = base_name @ ''_'' @ str_nat counter @ ''.webp''"

text \<open>
  The renaming loop of the worker (the same in both conversion functions):
  \<^verbatim>\<open>
  while os.path.exists(output_path):
      output_filename = f"{base_name}_{counter}.webp"
      output_path = os.path.join(output_dir, output_filename)
      counter += 1
  \<close>
  Its state is \<open>(output_filename, output_path, counter)\<close>. It ends on every filesystem:
  a name as long as \<open>str(counter)\<close> is longer than any existing path once the counter
  has more digits than the longest of them has characters.
\<close>

definition longest_path :: "world \<Rightarrow> nat" where
  "longest_path w = foldr max (map length (dirs w @ files w)) 0"

function rename_loop ::
  "world \<Rightarrow> string \<Rightarrow> string \<Rightarrow> string \<times> string \<times> nat \<Rightarrow> string \<times> string \<times> nat" where
  "rename_loop w output_dir base_name (output_filename, output_path, counter) =
     (if path_exists w output_path
      then rename_loop w output_dir base_name
             (candidate base_name counter, join output_dir (candidate base_name counter),
              counter + 1)
      else (output_filename, output_path, counter))"
  by pat_completeness auto

lemma str_nat_bound: "n < 10 ^ length (str_nat n)"
proof (induction n rule: str_nat.induct)
  case (1 n)
  show ?case
  proof (cases "n < 10")
    case True
    then show ?thesis by (subst str_nat.simps) simp
  next
    case False
    with 1 have "n div 10 < 10 ^ length (str_nat (n div 10))" by simp
    then have "n < 10 * 10 ^ length (str_nat (n div 10))" by linarith
    with False show ?thesis by (subst str_nat.simps) simp
  qed
qed

lemma length_join: "length b \<le> length (join a b)"
  by (simp add: join_def)

lemma length_le_longest: "p \<in> set xs \<Longrightarrow> length p \<le> foldr max (map length xs) 0"
  by (induction xs) auto

lemma exists_longest: "path_exists w p \<Longrightarrow> length p \<le> longest_path w"
  unfolding path_exists_def longest_path_def
  using length_le_longest [of p "dirs w @ files w"] by auto

lemma candidate_exists_bound:
  assumes "path_exists w (join d (candidate b c))"
  shows "c < 10 ^ longest_path w"
proof -
  have "length (str_nat c) \<le> length (candidate b c)" by (simp add: candidate_def)
  also have "\<dots> \<le> length (join d (candidate b c))" by (rule length_join)
  also have "\<dots> \<le> longest_path w" using assms by (rule exists_longest)
  finally have "(10::nat) ^ length (str_nat c) \<le> 10 ^ longest_path w"
    by (simp add: power_increasing)
  with str_nat_bound [of c] show ?thesis by linarith
qed

termination rename_loop
proof (relation "measure (\<lambda>(w, d, b, fn, p, c).
          (if path_exists w p then 1 else 0) + 2 * (10 ^ longest_path w - c))")
  show "wf (measure (\<lambda>(w, d, b, fn, p, c).
          (if path_exists w p then 1 else 0) + 2 * (10 ^ longest_path w - c)))"
    by simp
next
  fix w :: world and output_dir base_name output_filename output_path :: string
    and counter :: nat
  assume ex: "path_exists w output_path"
  show "((w, output_dir, base_name, candidate base_name counter,
           join output_dir (candidate base_name counter), counter + 1),
          (w, output_dir, base_name, output_filename, output_path, counter))
        \<in> measure (\<lambda>(w, d, b, fn, p, c).
          (if path_exists w p then 1 else 0) + 2 * (10 ^ longest_path w - c))"
  proof (cases "path_exists w (join output_dir (candidate base_name counter))")
    case True
    from candidate_exists_bound [OF True] ex True show ?thesis by simp
  next
    case False
    with ex show ?thesis by simp
  qed
qed

declare rename_loop.simps [simp del]

text \<open>
  Lines 52--53 and 58--69 of \<^verbatim>\<open>convert_single_image\<close> (106--107 and 112--123 of
  \<^verbatim>\<open>convert_single_image_with_metadata\<close>): the first candidate, and the renaming
  with its entry in \<^verbatim>\<open>renamed_files\<close> when the first candidate exists.
\<close>

definition first_output_filename :: "string \<Rightarrow> string" where
  "first_output_filename filename = fst (splitext filename) @ ''.webp''"

definition avoid_collision :: "world \<Rightarrow> string \<Rightarrow> string \<Rightarrow> string \<times> world" where
  "avoid_collision w output_dir filename =
     (let output_filename = first_output_filename filename;
          output_path = join output_dir output_filename
      in if path_exists w output_path
         then (let base_name = fst (splitext output_filename);
                   r = rename_loop w output_dir base_name (output_filename, output_path, 1)
               in (fst (snd r),
                   w\<lparr>renamed_files := renamed_files w @ [filename @ '' -> '' @ fst r]\<rparr>))
         else (output_path, w))"

section \<open>The workflow filter of the metadata-preserving worker\<close>

text \<open>
  The values \<^verbatim>\<open>json.loads\<close> returns. Numbers are kept abstract (type \<open>'n\<close>): the
  filter never computes with them, it only compares them when \<^verbatim>\<open>list.remove\<close>
  looks for an equal item. A JSON object is a Python \<^verbatim>\<open>dict\<close>, here the list of its
  items in insertion order.
\<close>

datatype 'n json = JNull | JBool bool | JNum 'n | JStr string
  | JArr "'n json list" | JObj "(string \<times> 'n json) list"

text \<open>
  Python's \<^verbatim>\<open>==\<close> on such values. \<open>ne\<close> compares two numbers and \<open>nb\<close> a number
  with a truth value (\<^verbatim>\<open>1 == True\<close>); lists are equal item by item, dicts when they
  have as many items and every key of the left one has an equal value in the right one.
\<close>

fun py_eq :: "('n \<Rightarrow> 'n \<Rightarrow> bool) \<Rightarrow> ('n \<Rightarrow> bool \<Rightarrow> bool) \<Rightarrow> 'n json \<Rightarrow> 'n json \<Rightarrow> bool" where
  "py_eq ne nb JNull JNull = True"
| "py_eq ne nb (JBool a) (JBool b) = (a = b)"
| "py_eq ne nb (JBool a) (JNum y) = nb y a"
| "py_eq ne nb (JNum x) (JBool b) = nb x b"
| "py_eq ne nb (JNum x) (JNum y) = ne x y"
| "py_eq ne nb (JStr s) (JStr t) = (s = t)"
| "py_eq ne nb (JArr xs) (JArr ys) = list_all2 (py_eq ne nb) xs ys"
| "py_eq ne nb (JObj a) (JObj b) =
     (length a = length b \<and>
      list_all (\<lambda>kv. case map_of b (fst kv) of None \<Rightarrow> False
                      | Some v \<Rightarrow> py_eq ne nb (snd kv) v) a)"
| "py_eq ne nb _ _ = False"

text \<open>
  \<^verbatim>\<open>n['type']\<close>: the value under the key, \<open>None\<close> where Python raises (KeyError on a
  dict without the key, TypeError on every value that is not a dict).
\<close>

definition node_type :: "'n json \<Rightarrow> 'n json option" where
  "node_type n = (case n of JObj kvs \<Rightarrow> map_of kvs ''type'' | _ \<Rightarrow> None)"

text \<open>
  \<^verbatim>\<open>nodes.remove(n)\<close> for the item \<open>n\<close> at index \<open>i\<close>: the first item equal to \<open>n\<close>
  goes, which is an earlier equal item if there is one and the item at \<open>i\<close> itself
  otherwise (an object is found equal to itself before \<^verbatim>\<open>==\<close> is asked).
\<close>

definition list_remove :: "('n json \<Rightarrow> 'n json \<Rightarrow> bool) \<Rightarrow> 'n json list \<Rightarrow> nat \<Rightarrow> 'n json list" where
  "list_remove eq nodes i =
     (let j = length (takeWhile (\<lambda>x. \<not> eq x (nodes ! i)) (take i nodes))
      in take j nodes @ drop (j + 1) nodes)"

text \<open>
  \<^verbatim>\<open>
  for n in nodes:
      if n['type'] == 'LoraInfo':
          nodes.remove(n)
  \<close>
  The list iterator holds an index \<open>i\<close> into the list being mutated: each round reads
  the item at \<open>i\<close> of the current list and moves on to \<open>i + 1\<close>, also after a removal.
  \<open>None\<close> is an exception raised by the loop body.
\<close>

function lora_loop ::
  "('n json \<Rightarrow> 'n json \<Rightarrow> bool) \<Rightarrow> nat \<Rightarrow> 'n json list \<Rightarrow> 'n json list option" where
  "lora_loop eq i nodes =
     (if i < length nodes
      then (case node_type (nodes ! i) of
              None \<Rightarrow> None
            | Some t \<Rightarrow>
                if t = JStr ''LoraInfo'' then lora_loop eq (i + 1) (list_remove eq nodes i)
                else lora_loop eq (i + 1) nodes)
      else Some nodes)"
  by pat_completeness auto

lemma length_list_remove:
  "i < length nodes \<Longrightarrow> length (list_remove eq nodes i) = length nodes - 1"
proof -
  assume i: "i < length nodes"
  have "length (takeWhile (\<lambda>x. \<not> eq x (nodes ! i)) (take i nodes)) \<le> length (take i nodes)"
    by (rule length_takeWhile_le)
  with i show ?thesis by (simp add: list_remove_def Let_def)
qed

termination lora_loop
  by (relation "measure (\<lambda>(eq, i, nodes). length nodes - i)")
     (auto simp: length_list_remove)

declare lora_loop.simps [simp del]

section \<open>The environment of a conversion\<close>

text \<open>
  What Pillow decodes from an image file, as far as the worker reads it: the metadata
  dictionary \<^verbatim>\<open>img.info\<close> (text chunks of a PNG, so strings) and the EXIF tags of
  text type, each the list of its items.
\<close>

record image =
  info :: "(string \<times> string) list"
  exif :: "(nat \<times> string) list"

text \<open>
  The codec, the operating system and the JSON codec are outside the repository. Each is
  a field of the environment: \<open>image_open\<close> decodes a path or gives the text of the
  exception it raises, \<open>makedirs_error\<close> and \<open>save_error\<close> give the text of the exception
  \<^verbatim>\<open>os.makedirs\<close> and \<^verbatim>\<open>img.save\<close> raise (\<open>None\<close>: they succeed; whether a save
  fails may depend on the filesystem, the path and what is to be encoded), \<open>json_loads\<close> is
  \<open>None\<close> on text that is not JSON, \<open>unbound_local_text\<close> is the interpreter's message
  for reading a local variable that was never assigned, and \<open>hardware_threads\<close> is
  \<^verbatim>\<open>multiprocessing.cpu_count()\<close>.
\<close>

record 'n env =
  image_open :: "world \<Rightarrow> string \<Rightarrow> string + image"
  makedirs_error :: "world \<Rightarrow> string \<Rightarrow> string option"
  save_error :: "world \<Rightarrow> string \<Rightarrow> webp \<Rightarrow> string option"
  json_loads :: "string \<Rightarrow> 'n json option"
  json_dumps :: "'n json \<Rightarrow> string"
  num_eq :: "'n \<Rightarrow> 'n \<Rightarrow> bool"
  num_eq_bool :: "'n \<Rightarrow> bool \<Rightarrow> bool"
  unbound_local_text :: string
  hardware_threads :: nat

text \<open>\<^verbatim>\<open>os.makedirs(output_dir, exist_ok=True)\<close>\<close>

definition makedirs :: "'n env \<Rightarrow> world \<Rightarrow> string \<Rightarrow> string + world" where
  "makedirs E w d =
     (case makedirs_error E w d of
        Some e \<Rightarrow> Inl e
      | None \<Rightarrow> Inr (if d \<in> set (dirs w) then w else w\<lparr>dirs := dirs w @ [d]\<rparr>))"

text \<open>
  The EXIF block as Pillow serialises it for the file: the value of a text tag (TIFF type
  ASCII, as tag \<^verbatim>\<open>0x010e\<close> is) is written as
  \<^verbatim>\<open>value.encode("ascii", "replace")\<close>.
\<close>

definition exif_tobytes :: "(nat \<times> string) list \<Rightarrow> (nat \<times> string) list" where
  "exif_tobytes tags = map (\<lambda>tv. (fst tv, encode_ascii_replace (snd tv))) tags"

text \<open>
  \<^verbatim>\<open>img.save(output_path, ...)\<close>: the file exists afterwards (an existing file at the
  path is replaced) and holds what was encoded, its EXIF tags as serialised.
\<close>

definition save :: "'n env \<Rightarrow> world \<Rightarrow> string \<Rightarrow> webp \<Rightarrow> string + world" where
  "save E w output_path content =
     (case save_error E w output_path content of
        Some e \<Rightarrow> Inl e
      | None \<Rightarrow>
          Inr (w\<lparr>files := (if output_path \<in> set (files w) then files w
                           else files w @ [output_path]),
                 written := written w
                   @ [(output_path, content\<lparr>w_exif := exif_tobytes (w_exif content)\<rparr>)]\<rparr>))"

section \<open>\<^verbatim>\<open>ConversionWorker\<close>\<close>

record conversion_worker =
  file_paths :: "string list"
  output_dir :: string
  quality :: int
  keep_workflow :: bool
  use_same_folder :: bool
  cpu_count :: nat

text \<open>
  \<^verbatim>\<open>ConversionWorker.__init__\<close>: the five arguments are stored, and
  \<^verbatim>\<open>self.cpu_count = multiprocessing.cpu_count()\<close>.
\<close>

definition new_worker ::
  "'n env \<Rightarrow> string list \<Rightarrow> string \<Rightarrow> int \<Rightarrow> bool \<Rightarrow> bool \<Rightarrow> conversion_worker" where
  "new_worker E paths out q keep same =
     \<lparr>file_paths = paths, output_dir = out, quality = q, keep_workflow = keep,
      use_same_folder = same, cpu_count = hardware_threads E\<rparr>"

text \<open>
  The pool of both conversion functions:
  \<^verbatim>\<open>ThreadPoolExecutor(max_workers=self.cpu_count)\<close>.
\<close>

definition max_workers :: "conversion_worker \<Rightarrow> nat" where
  "max_workers self = cpu_count self"

subsection \<open>The messages of the exceptions the workers raise\<close>

definition failed_to_convert :: "string \<Rightarrow> string \<Rightarrow> string" where
  "failed_to_convert filename e = ''Failed to convert '' @ filename @ '': '' @ e"

definition failed_with_workflow :: "string \<Rightarrow> string \<Rightarrow> string" where
  "failed_with_workflow filename e =
     ''Failed to convert '' @ filename @ '' with ComfyUI workflow: '' @ e"

definition not_png_message :: "string \<Rightarrow> string" where
  "not_png_message filename =
     ''Failed to convert '' @ filename @ '' with ComfyUI workflow.'' @ [CHR 0x0A]
     @ ''Consider using png files with workflow or uncheck keep ComfyUI workflow''"

subsection \<open>\<^verbatim>\<open>convert_single_image\<close>\<close>

text \<open>
  A task returns \<open>Inr output_path\<close>, or \<open>Inl\<close> the message of the exception it raises,
  together with the filesystem as it has left it. When \<^verbatim>\<open>Image.open\<close> raises,
  \<^verbatim>\<open>filename\<close> is not assigned yet, and the handler, which formats it into its
  message, raises the interpreter's error for the unbound variable instead.
\<close>

definition target_dir :: "conversion_worker \<Rightarrow> string \<Rightarrow> string" where
  "target_dir self img_path =
     (if use_same_folder self then dirname img_path else output_dir self)"

definition convert_single_image ::
  "'n env \<Rightarrow> conversion_worker \<Rightarrow> string \<Rightarrow> world \<Rightarrow> (string + string) \<times> world" where
  "convert_single_image E self img_path w =
     (case image_open E w img_path of
        Inl e \<Rightarrow> (Inl (unbound_local_text E), w)
      | Inr img \<Rightarrow>
          (let filename = basename img_path;
               out = target_dir self img_path
           in case makedirs E w out of
                Inl e \<Rightarrow> (Inl (failed_to_convert filename e), w)
              | Inr w1 \<Rightarrow>
                  (let r = avoid_collision w1 out filename;
                       output_path = fst r;
                       w2 = snd r
                   in case save E w2 output_path
                        \<lparr>w_source = img_path, w_quality = quality self, w_lossless = False,
                         w_method = None, w_rgb = False, w_exif = []\<rparr> of
                        Inl e \<Rightarrow> (Inl (failed_to_convert filename e), w2)
                      | Inr w3 \<Rightarrow> (Inr output_path, w3))))"

subsection \<open>\<^verbatim>\<open>convert_single_image_with_metadata\<close>\<close>

text \<open>
  The inner \<^verbatim>\<open>try\<close> of lines 131--140: parse the workflow, drop the nodes, serialise.
  The result is the new text of \<^verbatim>\<open>dict_of_info['workflow']\<close>, or \<open>None\<close> when an
  exception is caught (and printed) and the dictionary is left as it was:
  \<^verbatim>\<open>json.loads(None)\<close> on a missing field, text that is not JSON, a value without
  \<^verbatim>\<open>get\<close>, a \<^verbatim>\<open>nodes\<close> value that cannot be iterated, or a failing loop body. The
  list is mutated in place, so \<^verbatim>\<open>json.dumps(c)\<close> sees the filtered list under
  \<^verbatim>\<open>nodes\<close>.
\<close>

definition filter_workflow :: "'n env \<Rightarrow> string option \<Rightarrow> string option" where
  "filter_workflow E raw =
     (case raw of
        None \<Rightarrow> None
      | Some s \<Rightarrow>
          (case json_loads E s of
             Some (JObj c) \<Rightarrow>
               (case map_of c ''nodes'' of
                  Some (JArr nodes) \<Rightarrow>
                    (case lora_loop (py_eq (num_eq E) (num_eq_bool E)) 0 nodes of
                       None \<Rightarrow> None
                     | Some nodes' \<Rightarrow>
                         Some (json_dumps E (JObj (AList.update ''nodes'' (JArr nodes') c))))
                | Some (JStr t) \<Rightarrow> if t = [] then Some (json_dumps E (JObj c)) else None
                | Some (JObj m) \<Rightarrow> if m = [] then Some (json_dumps E (JObj c)) else None
                | _ \<Rightarrow> None)
           | _ \<Rightarrow> None))"

text \<open>
  \<^verbatim>\<open>user_comment = dict_of_info.get("workflow", "")\<close> after the filter, and the text
  stored under tag \<^verbatim>\<open>0x010e\<close>.
\<close>

definition user_comment :: "'n env \<Rightarrow> image \<Rightarrow> string" where
  "user_comment E img =
     (case filter_workflow E (map_of (info img) ''workflow'') of
        Some t \<Rightarrow> t
      | None \<Rightarrow> (case map_of (info img) ''workflow'' of Some raw \<Rightarrow> raw | None \<Rightarrow> []))"

definition exif_comment :: "'n env \<Rightarrow> image \<Rightarrow> string" where
  "exif_comment E img = ''Workflow:'' @ user_comment E img"

definition is_png :: "string \<Rightarrow> bool" where
  "is_png filename = endswith (lower filename) ''.png''"

definition convert_single_image_with_metadata ::
  "'n env \<Rightarrow> conversion_worker \<Rightarrow> string \<Rightarrow> world \<Rightarrow> (string + string) \<times> world" where
  "convert_single_image_with_metadata E self img_path w =
     (case image_open E w img_path of
        Inl e \<Rightarrow> (Inl (unbound_local_text E), w)
      | Inr img \<Rightarrow>
          (let filename = basename img_path;
               out = target_dir self img_path
           in case makedirs E w out of
                Inl e \<Rightarrow> (Inl (failed_to_convert filename e), w)
              | Inr w1 \<Rightarrow>
                  (let r = avoid_collision w1 out filename;
                       output_path = fst r;
                       w2 = snd r
                   in if is_png filename
                      then (case save E w2 output_path
                              \<lparr>w_source = img_path, w_quality = quality self,
                               w_lossless = False, w_method = Some 6, w_rgb = True,
                               w_exif = AList.update 0x010e (exif_comment E img) (exif img)\<rparr> of
                              Inl e \<Rightarrow>
                                (Inl (failed_to_convert filename
                                        (failed_with_workflow filename e)), w2)
                            | Inr w3 \<Rightarrow> (Inr output_path, w3))
                      else (Inl (failed_to_convert filename (not_png_message filename)),
                            w2))))"

section \<open>The progress percentage\<close>

text \<open>
  \<^verbatim>\<open>int((i + 1) / len(futures) * 100)\<close> is computed in binary64 floating point: the
  quotient of the two integers is rounded to the nearest double, its product with
  \<^verbatim>\<open>100\<close> is rounded again, and \<^verbatim>\<open>int\<close> truncates. A double is the rational it
  stands for. \<open>binade q\<close> is the exponent \<open>e\<close> with \<open>2\<^sup>e \<le> q < 2\<^sup>e\<^sup>+\<^sup>1\<close>; a double has 53
  significant bits, and none below \<open>2\<^sup>-\<^sup>1\<^sup>0\<^sup>7\<^sup>4\<close>. The values here are at most 100, so the
  upper end of the range is not modelled.
\<close>

definition round_half_even :: "rat \<Rightarrow> int" where
  "round_half_even x =
     (let f = \<lfloor>x\<rfloor>; r = x - of_int f
      in if r < 1 / 2 then f else if 1 / 2 < r then f + 1 else if even f then f else f + 1)"

definition binade :: "rat \<Rightarrow> int" where
  "binade q =
     (let d = bitlen (fst (quotient_of q)) - bitlen (snd (quotient_of q))
      in if q < power_int 2 d then d - 1 else d)"

definition ulp_exp :: "rat \<Rightarrow> int" where
  "ulp_exp q = max (binade q - 52) (- 1074)"

definition fl64_pos :: "rat \<Rightarrow> rat" where
  "fl64_pos q = of_int (round_half_even (q / power_int 2 (ulp_exp q))) * power_int 2 (ulp_exp q)"

text \<open>Rounding to the nearest double, ties to even.\<close>

definition fl64 :: "rat \<Rightarrow> rat" where
  "fl64 q = (if 0 < q then fl64_pos q else if q < 0 then - fl64_pos (- q) else 0)"

text \<open>\<^verbatim>\<open>int(x)\<close> of a float: towards zero.\<close>

definition py_int :: "rat \<Rightarrow> int" where
  "py_int x = (if 0 \<le> x then \<lfloor>x\<rfloor> else \<lceil>x\<rceil>)"

definition progress_percent :: "nat \<Rightarrow> nat \<Rightarrow> int" where
  "progress_percent i n = py_int (fl64 (fl64 (of_nat (i + 1) / of_nat n) * 100))"

section \<open>The batch\<close>

text \<open>The three signals of \<^verbatim>\<open>ConversionWorker\<close>.\<close>

datatype signal = Progress int | Error string | Finished "string list" "string list"

text \<open>
  \<^verbatim>\<open>futures = [executor.submit(task, img_path) for img_path in self.file_paths]\<close>.
  The pool's threads share the filesystem and the list \<^verbatim>\<open>renamed_files\<close>; the tasks
  are run here one after the other in the order of submission, which is the schedule of a
  pool of one thread, and one of the schedules of a pool of several (\<open>run_schedule\<close>
  below runs the others, in which tasks interleave). A future holds the task's result or
  its exception.
\<close>

fun run_tasks ::
  "(string \<Rightarrow> world \<Rightarrow> (string + string) \<times> world) \<Rightarrow> string list \<Rightarrow> world
   \<Rightarrow> (string + string) list \<times> world" where
  "run_tasks task [] w = ([], w)"
| "run_tasks task (img_path # rest) w =
     (let r = task img_path w;
          rs = run_tasks task rest (snd r)
      in (fst r # fst rs, snd rs))"

text \<open>
  \<^verbatim>\<open>
  for i, future in enumerate(futures):
      try:
          result = future.result()
          success.append(result)
          self.progress.emit(int((i + 1) / len(futures) * 100))
      except Exception as e:
          self.error_signal.emit(str(e))
  \<close>
  The state is the list \<^verbatim>\<open>success\<close> and the signals emitted so far; \<open>n\<close> is
  \<^verbatim>\<open>len(futures)\<close>.
\<close>

fun collect ::
  "nat \<Rightarrow> nat \<Rightarrow> (string + string) list \<Rightarrow> string list \<times> signal list
   \<Rightarrow> string list \<times> signal list" where
  "collect i n [] acc = acc"
| "collect i n (Inr result # futures) (success, emitted) =
     collect (i + 1) n futures (success @ [result], emitted @ [Progress (progress_percent i n)])"
| "collect i n (Inl e # futures) (success, emitted) =
     collect (i + 1) n futures (success, emitted @ [Error e])"

text \<open>
  Both conversion functions start from an empty \<^verbatim>\<open>renamed_files\<close> and return
  \<^verbatim>\<open>(renamed_files, success)\<close>; the signals they emit and the filesystem they leave are
  returned with it.
\<close>

definition convert_batch ::
  "(string \<Rightarrow> world \<Rightarrow> (string + string) \<times> world) \<Rightarrow> string list \<Rightarrow> world
   \<Rightarrow> (string list \<times> string list) \<times> signal list \<times> world" where
  "convert_batch task paths w =
     (let r = run_tasks task paths (w\<lparr>renamed_files := []\<rparr>);
          futures = fst r;
          c = collect 0 (length futures) futures ([], [])
      in ((renamed_files (snd r), fst c), snd c, snd r))"

definition convert_images_to_webp ::
  "'n env \<Rightarrow> conversion_worker \<Rightarrow> world
   \<Rightarrow> (string list \<times> string list) \<times> signal list \<times> world" where
  "convert_images_to_webp E self w =
     convert_batch (convert_single_image E self) (file_paths self) w"

definition convert_images_to_webp_with_metadata ::
  "'n env \<Rightarrow> conversion_worker \<Rightarrow> world
   \<Rightarrow> (string list \<times> string list) \<times> signal list \<times> world" where
  "convert_images_to_webp_with_metadata E self w =
     convert_batch (convert_single_image_with_metadata E self) (file_paths self) w"

text \<open>
  \<^verbatim>\<open>ConversionWorker.run\<close>: all signals of one run, in the order of emission. Every
  exception of a task is caught inside the conversion function, so the handler of
  \<^verbatim>\<open>run\<close> has nothing left to catch.
\<close>

definition run :: "'n env \<Rightarrow> conversion_worker \<Rightarrow> world \<Rightarrow> signal list \<times> world" where
  "run E self w =
     (let r = (if keep_workflow self then convert_images_to_webp_with_metadata E self w
               else convert_images_to_webp E self w)
      in (fst (snd r) @ [Finished (fst (fst r)) (snd (fst r))], snd (snd r)))"

section \<open>Tasks that interleave\<close>

text \<open>
  The threads of the pool run their tasks at the same time, and nothing in the source
  orders the check of one task (\<^verbatim>\<open>os.path.exists\<close>, line 59) and the save of another
  (line 72). A task of the plain conversion is therefore also given in two steps, each
  taken as a whole: the first is lines 43--69, up to the choice of \<^verbatim>\<open>output_path\<close>,
  the second is the save of lines 72--73 with the handler of lines 74--75.
\<close>

definition resolve_output ::
  "'n env \<Rightarrow> conversion_worker \<Rightarrow> string \<Rightarrow> world \<Rightarrow> (string + string \<times> string) \<times> world" where
  "resolve_output E self img_path w =
     (case image_open E w img_path of
        Inl e \<Rightarrow> (Inl (unbound_local_text E), w)
      | Inr img \<Rightarrow>
          (let filename = basename img_path;
               out = target_dir self img_path
           in case makedirs E w out of
                Inl e \<Rightarrow> (Inl (failed_to_convert filename e), w)
              | Inr w1 \<Rightarrow>
                  (let r = avoid_collision w1 out filename
                   in (Inr (filename, fst r), snd r))))"

definition write_output ::
  "'n env \<Rightarrow> conversion_worker \<Rightarrow> string \<Rightarrow> string \<Rightarrow> string \<Rightarrow> world
   \<Rightarrow> (string + string) \<times> world" where
  "write_output E self img_path filename output_path w =
     (case save E w output_path
        \<lparr>w_source = img_path, w_quality = quality self, w_lossless = False,
         w_method = None, w_rgb = False, w_exif = []\<rparr> of
        Inl e \<Rightarrow> (Inl (failed_to_convert filename e), w)
      | Inr w3 \<Rightarrow> (Inr output_path, w3))"

text \<open>
  A task is submitted, has chosen its output path, or has returned. A schedule is the
  list of the tasks that take their next step, by position; \<open>run_schedule\<close> runs it.
\<close>

datatype task_state =
  Submitted string | Resolved string string string | Returned "string + string"

definition task_step ::
  "'n env \<Rightarrow> conversion_worker \<Rightarrow> task_state \<Rightarrow> world \<Rightarrow> task_state \<times> world" where
  "task_step E self t w =
     (case t of
        Submitted img_path \<Rightarrow>
          (case resolve_output E self img_path w of
             (Inl e, w') \<Rightarrow> (Returned (Inl e), w')
           | (Inr (filename, output_path), w') \<Rightarrow> (Resolved img_path filename output_path, w'))
      | Resolved img_path filename output_path \<Rightarrow>
          (let r = write_output E self img_path filename output_path w
           in (Returned (fst r), snd r))
      | Returned r \<Rightarrow> (Returned r, w))"

fun run_schedule ::
  "'n env \<Rightarrow> conversion_worker \<Rightarrow> nat list \<Rightarrow> task_state list \<times> world
   \<Rightarrow> task_state list \<times> world" where
  "run_schedule E self [] (ts, w) = (ts, w)"
| "run_schedule E self (k # sched) (ts, w) =
     (if k < length ts
      then (let r = task_step E self (ts ! k) w
            in run_schedule E self sched (ts[k := fst r], snd r))
      else run_schedule E self sched (ts, w))"

section \<open>\<^verbatim>\<open>ImageConverter\<close>\<close>

text \<open>
  The widgets \<^verbatim>\<open>convert_images\<close> can read: the two check boxes, the spin box
  ``Number of threads'' (range 1 to \<^verbatim>\<open>multiprocessing.cpu_count()\<close>), the quality
  slider, and the selected files and output directory.
\<close>

record image_converter =
  checkbox :: bool
  same_folder_checkbox :: bool
  cpu_spinbox :: nat
  quality_slider :: int
  selected_file_paths :: "string list"
  selected_output_dir :: string

text \<open>
  \<^verbatim>\<open>ImageConverter.convert_images\<close>: the text of the warning it shows, or the worker it
  creates and starts.
\<close>

definition convert_images :: "'n env \<Rightarrow> image_converter \<Rightarrow> string + conversion_worker" where
  "convert_images E gui =
     (if quality_slider gui < 1 \<or> quality_slider gui > 100
      then Inl ''Please enter a valid quality between 1 and 100.''
      else if selected_file_paths gui = []
      then Inl ''Please select at least one image file or folder.''
      else if \<not> same_folder_checkbox gui \<and> selected_output_dir gui = []
      then Inl ''Please select an output directory.''
      else Inr (new_worker E (selected_file_paths gui) (selected_output_dir gui)
                  (quality_slider gui) (checkbox gui) (same_folder_checkbox gui)))"

section \<open>Notions for stating the properties of a batch\<close>

text \<open>
  The signal the collecting loop emits for the future at position \<open>k\<close> of \<open>n\<close>, and the
  task \<^verbatim>\<open>run\<close> selects by \<^verbatim>\<open>self.keep_workflow\<close>. Both are compared with the
  functions above by \<open>collect_snd\<close> and \<open>run_result\<close>.
\<close>

definition signal_of :: "nat \<Rightarrow> nat \<times> (string + string) \<Rightarrow> signal" where
  "signal_of n kf = (case snd kf of Inr r \<Rightarrow> Progress (progress_percent (fst kf) n) | Inl m \<Rightarrow> Error m)"

definition task_of :: "'n env \<Rightarrow> conversion_worker \<Rightarrow> string \<Rightarrow> world \<Rightarrow> (string + string) \<times> world" where
  "task_of E self =
     (if keep_workflow self then convert_single_image_with_metadata E self
      else convert_single_image E self)"

text \<open>
  Nodes as the filter sees them: a node of the excluded type, a node on which
  \<^verbatim>\<open>n['type']\<close> does not raise, and a dict as Python builds it, with every key once.
\<close>

definition is_lora :: "'n json \<Rightarrow> bool" where
  "is_lora n = (node_type n = Some (JStr ''LoraInfo''))"

definition is_typed :: "'n json \<Rightarrow> bool" where
  "is_typed n = (node_type n \<noteq> None)"

definition distinct_keys :: "'n json \<Rightarrow> bool" where
  "distinct_keys n = (case n of JObj kvs \<Rightarrow> distinct (map fst kvs) | _ \<Rightarrow> True)"

section \<open>Example inputs\<close>

text \<open>
  A small filesystem, an environment whose codec opens every existing file and whose
  operating system refuses nothing but a directory at the place of a file, and a worker,
  for evaluating the functions above on concrete inputs.
\<close>

definition example_world :: world where
  "example_world =
     \<lparr>dirs = [''/out''], files = [''/in/X.png'', ''/in/Y.jpg'', ''/out/X.webp'', ''/out/X_1.webp''],
      written = [], renamed_files = []\<rparr>"

definition example_env :: "int env" where
  "example_env =
     \<lparr>image_open = (\<lambda>w p. if p \<in> set (files w) then Inr \<lparr>info = [], exif = []\<rparr>
                            else Inl ''No such file or directory''),
      makedirs_error = (\<lambda>w d. if d \<in> set (files w) then Some ''File exists'' else None),
      save_error = (\<lambda>w p c. None),
      json_loads = (\<lambda>s. None),
      json_dumps = (\<lambda>j. []),
      num_eq = (=),
      num_eq_bool = (\<lambda>n b. n = (if b then 1 else 0)),
      unbound_local_text = ''cannot access local variable filename'',
      hardware_threads = 8\<rparr>"

definition example_worker :: conversion_worker where
  "example_worker =
     \<lparr>file_paths = [''/in/X.png'', ''/in/missing.png'', ''/in/Y.jpg''], output_dir = ''/out'',
      quality = 87, keep_workflow = False, use_same_folder = False, cpu_count = 8\<rparr>"

text \<open>
  An environment for the workflow filter. Its parser knows three texts; the third stands
  for a workflow whose node list holds a node of the excluded type, another node, and a
  number, on which the loop body raises after the first node has been removed.
\<close>

definition broken_workflow :: string where
  "broken_workflow = ''{nodes: [{type: LoraInfo}, {type: KSampler}, 5]}''"

definition example_workflow_env :: "int env" where
  "example_workflow_env =
     example_env
       \<lparr>image_open := (\<lambda>w p. if p \<in> set (files w)
                               then Inr \<lparr>info = [(''workflow'', broken_workflow)], exif = []\<rparr>
                               else Inl ''No such file or directory''),
        json_loads := (\<lambda>s.
           if s = ''[1]'' then Some (JArr [JNum 1])
           else if s = ''{}'' then Some (JObj [])
           else if s = broken_workflow
           then Some (JObj [(''nodes'',
                  JArr [JObj [(''type'', JStr ''LoraInfo'')],
                        JObj [(''type'', JStr ''KSampler'')], JNum 5])])
           else None),
        json_dumps := (\<lambda>j. ''(serialised)'')\<rparr>"

text \<open>
  A workflow text that is not JSON and holds a character outside ASCII (\<^verbatim>\<open>e\<close> with an
  acute accent, code point \<^verbatim>\<open>0xE9\<close>), and an environment whose images carry it.
\<close>

definition accented_workflow :: string where
  "accented_workflow = ''not json '' @ [CHR 0xE9]"

definition example_accent_env :: "int env" where
  "example_accent_env =
     example_env
       \<lparr>image_open := (\<lambda>w p. if p \<in> set (files w)
                               then Inr \<lparr>info = [(''workflow'', accented_workflow)], exif = []\<rparr>
                               else Inl ''No such file or directory'')\<rparr>"

text \<open>Two inputs of the same name in different folders, converted into one empty folder.\<close>

definition race_world :: world where
  "race_world =
     \<lparr>dirs = [''/a'', ''/b'', ''/out''], files = [''/a/X.png'', ''/b/X.png''],
      written = [], renamed_files = []\<rparr>"

definition race_worker :: conversion_worker where
  "race_worker =
     \<lparr>file_paths = [''/a/X.png'', ''/b/X.png''], output_dir = ''/out'',
      quality = 87, keep_workflow = False, use_same_folder = False, cpu_count = 8\<rparr>"

section \<open>Properties of the output name\<close>

lemma rename_loop_finds_least:
  "path_exists w p \<Longrightarrow>
   \<exists>k\<ge>c. rename_loop w d b (fn, p, c) = (candidate b k, join d (candidate b k), k + 1)
        \<and> \<not> path_exists w (join d (candidate b k))
        \<and> (\<forall>j. c \<le> j \<and> j < k \<longrightarrow> path_exists w (join d (candidate b j)))"
proof (induction w d b "(fn, p, c)" arbitrary: fn p c rule: rename_loop.induct)
  case (1 w d b fn p c)
  show ?case
  proof (cases "path_exists w (join d (candidate b c))")
    case False
    have "rename_loop w d b (fn, p, c) = (candidate b c, join d (candidate b c), c + 1)"
      using "1.prems" False by (simp add: rename_loop.simps)
    with False show ?thesis by (intro exI [of _ c]) auto
  next
    case True
    from "1.hyps" [OF "1.prems" True]
    obtain k where k: "c + 1 \<le> k"
      "rename_loop w d b (candidate b c, join d (candidate b c), c + 1)
         = (candidate b k, join d (candidate b k), k + 1)"
      "\<not> path_exists w (join d (candidate b k))"
      "\<forall>j. c + 1 \<le> j \<and> j < k \<longrightarrow> path_exists w (join d (candidate b j))"
      by blast
    have unf: "rename_loop w d b (fn, p, c)
        = rename_loop w d b (candidate b c, join d (candidate b c), c + 1)"
      using "1.prems" by (subst rename_loop.simps) simp
    have "\<forall>j. c \<le> j \<and> j < k \<longrightarrow> path_exists w (join d (candidate b j))"
    proof (intro allI impI)
      fix j assume j: "c \<le> j \<and> j < k"
      show "path_exists w (join d (candidate b j))"
      proof (cases "j = c")
        case True with \<open>path_exists w (join d (candidate b c))\<close> show ?thesis by simp
      next
        case False with j k(4) show ?thesis by simp
      qed
    qed
    with k unf show ?thesis by (intro exI [of _ k]) simp
  qed
qed

lemma rfind_last: "c \<notin> set ys \<Longrightarrow> rfind (xs @ c # ys) c = int (length xs)"
proof -
  assume n: "c \<notin> set ys"
  have "takeWhile (\<lambda>x. x \<noteq> c) (rev ys @ c # rev xs) = rev ys"
    using n by (subst takeWhile_append2) auto
  then show ?thesis by (simp add: rfind_def)
qed

lemma rfind_absent: "c \<notin> set s \<Longrightarrow> rfind s c = - 1"
  by (simp add: rfind_def)

lemma basename_no_sep: "CHR ''/'' \<notin> set (basename p)"
proof (cases "CHR ''/'' \<in> set p")
  case False
  then show ?thesis by (simp add: basename_def rfind_def)
next
  case True
  let ?t = "takeWhile (\<lambda>x. x \<noteq> CHR ''/'') (rev p)"
  have le: "length ?t \<le> length p" using length_takeWhile_le [of _ "rev p"] by simp
  have "basename p = drop (length p - length ?t) p"
    using True le by (simp add: basename_def rfind_def nat_diff_distrib)
  also have "\<dots> = rev (take (length ?t) (rev p))" by (simp add: take_rev)
  also have "take (length ?t) (rev p) = ?t"
    by (metis takeWhile_eq_take)
  finally have "set (basename p) = set ?t" by simp
  then show ?thesis using set_takeWhileD by fastforce
qed

lemma splitext_webp:
  assumes "CHR ''/'' \<notin> set x" and "list_ex (\<lambda>c. c \<noteq> CHR ''.'') x"
  shows "splitext (x @ ''.webp'') = (x, ''.webp'')"
proof -
  have d: "rfind (x @ ''.webp'') CHR ''.'' = int (length x)"
    using rfind_last [of "CHR ''.''" "''webp''" x] by simp
  have s: "rfind (x @ ''.webp'') CHR ''/'' = - 1"
    using assms(1) by (intro rfind_absent) simp
  show ?thesis using assms(2) by (simp add: splitext_def d s)
qed

lemma stem_properties:
  assumes "CHR ''/'' \<notin> set f" and "list_ex (\<lambda>c. c \<noteq> CHR ''.'') f"
  shows "CHR ''/'' \<notin> set (fst (splitext f))" and "list_ex (\<lambda>c. c \<noteq> CHR ''.'') (fst (splitext f))"
proof -
  have s: "rfind f CHR ''/'' = - 1" using assms(1) by (rule rfind_absent)
  show "CHR ''/'' \<notin> set (fst (splitext f))"
    using assms(1) by (auto simp: splitext_def Let_def dest: in_set_takeD)
  show "list_ex (\<lambda>c. c \<noteq> CHR ''.'') (fst (splitext f))"
    using assms(2) by (auto simp: splitext_def Let_def s)
qed

lemma base_name_is_stem:
  assumes "list_ex (\<lambda>c. c \<noteq> CHR ''.'') (basename p)"
  shows "fst (splitext (first_output_filename (basename p))) = fst (splitext (basename p))"
  unfolding first_output_filename_def
  using splitext_webp [OF stem_properties [OF basename_no_sep assms]] by simp

lemma avoid_collision_free:
  "\<not> path_exists w (join d (first_output_filename f)) \<Longrightarrow>
   avoid_collision w d f = (join d (first_output_filename f), w)"
  by (simp add: avoid_collision_def Let_def)

lemma avoid_collision_taken:
  assumes "path_exists w (join d (first_output_filename f))"
  shows "\<exists>k\<ge>1. avoid_collision w d f =
            (join d (candidate (fst (splitext (first_output_filename f))) k),
             w\<lparr>renamed_files := renamed_files w @
                 [f @ '' -> '' @ candidate (fst (splitext (first_output_filename f))) k]\<rparr>)
          \<and> \<not> path_exists w (join d (candidate (fst (splitext (first_output_filename f))) k))
          \<and> (\<forall>j. 1 \<le> j \<and> j < k \<longrightarrow>
                path_exists w (join d (candidate (fst (splitext (first_output_filename f))) j)))"
proof -
  let ?b = "fst (splitext (first_output_filename f))"
  from rename_loop_finds_least [OF assms, of 1 d ?b "first_output_filename f"]
  obtain k where k: "1 \<le> k"
    "rename_loop w d ?b (first_output_filename f, join d (first_output_filename f), 1)
       = (candidate ?b k, join d (candidate ?b k), k + 1)"
    "\<not> path_exists w (join d (candidate ?b k))"
    "\<forall>j. 1 \<le> j \<and> j < k \<longrightarrow> path_exists w (join d (candidate ?b j))"
    by blast
  have "avoid_collision w d f =
      (join d (candidate ?b k),
       w\<lparr>renamed_files := renamed_files w @ [f @ '' -> '' @ candidate ?b k]\<rparr>)"
    using assms k(2) by (simp add: avoid_collision_def Let_def)
  with k show ?thesis by blast
qed

lemma avoid_collision_not_exists: "\<not> path_exists w (fst (avoid_collision w d f))"
proof (cases "path_exists w (join d (first_output_filename f))")
  case True
  from avoid_collision_taken [OF True] show ?thesis by auto
next
  case False
  then show ?thesis by (simp add: avoid_collision_free)
qed

lemma avoid_collision_world:
  "dirs (snd (avoid_collision w d f)) = dirs w"
  "files (snd (avoid_collision w d f)) = files w"
  "written (snd (avoid_collision w d f)) = written w"
  by (simp_all add: avoid_collision_def Let_def)

lemma makedirs_Inr:
  assumes "makedirs E w d = Inr w1"
  shows "d \<in> set (dirs w1)" and "files w1 = files w" and "written w1 = written w"
    and "renamed_files w1 = renamed_files w" and "set (dirs w) \<subseteq> set (dirs w1)"
  using assms by (auto simp: makedirs_def split: option.splits if_splits)

lemma makedirs_exists_mono:
  "makedirs E w d = Inr w1 \<Longrightarrow> path_exists w p \<Longrightarrow> path_exists w1 p"
  using makedirs_Inr(2,5) [of E w d w1] by (auto simp: path_exists_def)

lemma save_Inr:
  assumes "save E w p c = Inr w3"
  shows "files w3 = (if p \<in> set (files w) then files w else files w @ [p])"
    and "written w3 = written w @ [(p, c\<lparr>w_exif := exif_tobytes (w_exif c)\<rparr>)]"
    and "dirs w3 = dirs w"
    and "renamed_files w3 = renamed_files w"
  using assms by (auto simp: save_def split: option.splits)

lemma save_Inl: "save E w p c = Inl e \<Longrightarrow> save_error E w p c = Some e"
  by (auto simp: save_def split: option.splits)

lemma convert_single_image_reached:
  assumes "image_open E w p = Inr img" and "makedirs E w (target_dir self p) = Inr w1"
  shows "convert_single_image E self p w =
     (case save E (snd (avoid_collision w1 (target_dir self p) (basename p)))
             (fst (avoid_collision w1 (target_dir self p) (basename p)))
             \<lparr>w_source = p, w_quality = quality self, w_lossless = False,
              w_method = None, w_rgb = False, w_exif = []\<rparr> of
        Inl e \<Rightarrow> (Inl (failed_to_convert (basename p) e),
                  snd (avoid_collision w1 (target_dir self p) (basename p)))
      | Inr w3 \<Rightarrow> (Inr (fst (avoid_collision w1 (target_dir self p) (basename p))), w3))"
  using assms by (simp add: convert_single_image_def Let_def)

lemma convert_single_image_with_metadata_reached:
  assumes "image_open E w p = Inr img" and "makedirs E w (target_dir self p) = Inr w1"
  shows "convert_single_image_with_metadata E self p w =
     (if is_png (basename p)
      then (case save E (snd (avoid_collision w1 (target_dir self p) (basename p)))
             (fst (avoid_collision w1 (target_dir self p) (basename p)))
             \<lparr>w_source = p, w_quality = quality self, w_lossless = False,
              w_method = Some 6, w_rgb = True,
              w_exif = AList.update 0x010e (exif_comment E img) (exif img)\<rparr> of
              Inl e \<Rightarrow> (Inl (failed_to_convert (basename p) (failed_with_workflow (basename p) e)),
                        snd (avoid_collision w1 (target_dir self p) (basename p)))
            | Inr w3 \<Rightarrow> (Inr (fst (avoid_collision w1 (target_dir self p) (basename p))), w3))
      else (Inl (failed_to_convert (basename p) (not_png_message (basename p))),
            snd (avoid_collision w1 (target_dir self p) (basename p))))"
  using assms by (simp add: convert_single_image_with_metadata_def Let_def)

lemma convert_single_image_Inr:
  assumes "fst (convert_single_image E self p w) = Inr out"
  shows "\<exists>img w1. image_open E w p = Inr img \<and> makedirs E w (target_dir self p) = Inr w1
           \<and> out = fst (avoid_collision w1 (target_dir self p) (basename p))
           \<and> files (snd (convert_single_image E self p w)) = files w @ [out]"
proof -
  obtain img where img: "image_open E w p = Inr img"
    using assms by (cases "image_open E w p") (auto simp: convert_single_image_def)
  obtain w1 where w1: "makedirs E w (target_dir self p) = Inr w1"
    using assms img
    by (cases "makedirs E w (target_dir self p)") (auto simp: convert_single_image_def Let_def)
  let ?r = "avoid_collision w1 (target_dir self p) (basename p)"
  note unf = convert_single_image_reached [OF img w1]
  obtain w3 where w3: "save E (snd ?r) (fst ?r)
      \<lparr>w_source = p, w_quality = quality self, w_lossless = False,
       w_method = None, w_rgb = False, w_exif = []\<rparr> = Inr w3"
    using assms unfolding unf by (auto split: sum.splits)
  have out: "out = fst ?r" and res: "snd (convert_single_image E self p w) = w3"
    using assms w3 unfolding unf by simp_all
  have "\<not> path_exists (snd ?r) (fst ?r)"
    using avoid_collision_not_exists [of w1 "target_dir self p" "basename p"]
    by (simp add: path_exists_def avoid_collision_world)
  then have "fst ?r \<notin> set (files (snd ?r))" by (simp add: path_exists_def)
  with save_Inr(1) [OF w3] have "files w3 = files w @ [fst ?r]"
    by (simp add: avoid_collision_world makedirs_Inr(2) [OF w1])
  with img w1 out res show ?thesis by auto
qed

lemma convert_single_image_with_metadata_Inr:
  assumes "fst (convert_single_image_with_metadata E self p w) = Inr out"
  shows "\<exists>img w1. image_open E w p = Inr img \<and> makedirs E w (target_dir self p) = Inr w1
           \<and> is_png (basename p)
           \<and> out = fst (avoid_collision w1 (target_dir self p) (basename p))
           \<and> files (snd (convert_single_image_with_metadata E self p w)) = files w @ [out]"
proof -
  obtain img where img: "image_open E w p = Inr img"
    using assms by (cases "image_open E w p") (auto simp: convert_single_image_with_metadata_def)
  obtain w1 where w1: "makedirs E w (target_dir self p) = Inr w1"
    using assms img
    by (cases "makedirs E w (target_dir self p)")
       (auto simp: convert_single_image_with_metadata_def Let_def)
  let ?r = "avoid_collision w1 (target_dir self p) (basename p)"
  note unf = convert_single_image_with_metadata_reached [OF img w1]
  have png: "is_png (basename p)" using assms unfolding unf by (auto split: if_splits)
  obtain w3 where w3: "save E (snd ?r) (fst ?r)
      \<lparr>w_source = p, w_quality = quality self, w_lossless = False,
       w_method = Some 6, w_rgb = True,
       w_exif = AList.update 0x010e (exif_comment E img) (exif img)\<rparr> = Inr w3"
    using assms png unfolding unf by (auto split: sum.splits)
  have out: "out = fst ?r" and res: "snd (convert_single_image_with_metadata E self p w) = w3"
    using assms w3 png unfolding unf by simp_all
  have "\<not> path_exists (snd ?r) (fst ?r)"
    using avoid_collision_not_exists [of w1 "target_dir self p" "basename p"]
    by (simp add: path_exists_def avoid_collision_world)
  then have "fst ?r \<notin> set (files (snd ?r))" by (simp add: path_exists_def)
  with save_Inr(1) [OF w3] have "files w3 = files w @ [fst ?r]"
    by (simp add: avoid_collision_world makedirs_Inr(2) [OF w1])
  with img w1 out res png show ?thesis by auto
qed

lemma written_path_is_new:
  assumes "makedirs E w d = Inr w1"
  shows "\<not> path_exists w (fst (avoid_collision w1 d f))"
  using avoid_collision_not_exists [of w1 d f] makedirs_exists_mono [OF assms] by blast

text \<open>
  What the naming block computes on one state of the filesystem. The output path of an
  input is the input's file name with its extension replaced by \<^verbatim>\<open>.webp\<close> when no
  such path exists; otherwise it is \<open>base_name\<close> followed by \<^verbatim>\<open>_k.webp\<close> for the
  least \<open>k \<ge> 1\<close> whose path does not exist, where \<open>base_name\<close> is the stem of the first
  candidate, which is the stem of the input's file name unless that name consists of
  dots only. The chosen path does not exist in the state in which it is chosen, and a
  task that runs from its start to its save with no other task in between adds the path
  to the files and touches no file that existed when it started.
\<close>

theorem output_path_first_free_candidate:
  "(\<not> path_exists w (join d (first_output_filename f)) \<longrightarrow>
      fst (avoid_collision w d f) = join d (first_output_filename f))
   \<and> (path_exists w (join d (first_output_filename f)) \<longrightarrow>
      (\<exists>k\<ge>1. fst (avoid_collision w d f)
                 = join d (candidate (fst (splitext (first_output_filename f))) k)
            \<and> (\<forall>j. 1 \<le> j \<and> j < k \<longrightarrow>
                  path_exists w
                    (join d (candidate (fst (splitext (first_output_filename f))) j)))))
   \<and> \<not> path_exists w (fst (avoid_collision w d f))
   \<and> first_output_filename (basename p) = fst (splitext (basename p)) @ ''.webp''
   \<and> (list_ex (\<lambda>c. c \<noteq> CHR ''.'') (basename p) \<longrightarrow>
        fst (splitext (first_output_filename (basename p))) = fst (splitext (basename p)))
   \<and> (fst (convert_single_image E self p w) = Inr out \<longrightarrow>
        \<not> path_exists w out \<and> files (snd (convert_single_image E self p w)) = files w @ [out])
   \<and> (fst (convert_single_image_with_metadata E self p w) = Inr out \<longrightarrow>
        \<not> path_exists w out
        \<and> files (snd (convert_single_image_with_metadata E self p w)) = files w @ [out])"
proof -
  have free: "\<not> path_exists w (join d (first_output_filename f)) \<longrightarrow>
      fst (avoid_collision w d f) = join d (first_output_filename f)"
    by (simp add: avoid_collision_free)
  have taken: "path_exists w (join d (first_output_filename f)) \<longrightarrow>
      (\<exists>k\<ge>1. fst (avoid_collision w d f)
                 = join d (candidate (fst (splitext (first_output_filename f))) k)
            \<and> (\<forall>j. 1 \<le> j \<and> j < k \<longrightarrow>
                  path_exists w
                    (join d (candidate (fst (splitext (first_output_filename f))) j))))"
  proof
    assume "path_exists w (join d (first_output_filename f))"
    from avoid_collision_taken [OF this] show "\<exists>k\<ge>1. fst (avoid_collision w d f)
                 = join d (candidate (fst (splitext (first_output_filename f))) k)
            \<and> (\<forall>j. 1 \<le> j \<and> j < k \<longrightarrow>
                  path_exists w
                    (join d (candidate (fst (splitext (first_output_filename f))) j)))"
      by auto
  qed
  have stem: "list_ex (\<lambda>c. c \<noteq> CHR ''.'') (basename p) \<longrightarrow>
        fst (splitext (first_output_filename (basename p))) = fst (splitext (basename p))"
    using base_name_is_stem by blast
  have plain: "fst (convert_single_image E self p w) = Inr out \<longrightarrow>
        \<not> path_exists w out \<and> files (snd (convert_single_image E self p w)) = files w @ [out]"
  proof
    assume "fst (convert_single_image E self p w) = Inr out"
    from convert_single_image_Inr [OF this] written_path_is_new
    show "\<not> path_exists w out \<and> files (snd (convert_single_image E self p w)) = files w @ [out]"
      by blast
  qed
  have meta: "fst (convert_single_image_with_metadata E self p w) = Inr out \<longrightarrow>
        \<not> path_exists w out
        \<and> files (snd (convert_single_image_with_metadata E self p w)) = files w @ [out]"
  proof
    assume "fst (convert_single_image_with_metadata E self p w) = Inr out"
    from convert_single_image_with_metadata_Inr [OF this] written_path_is_new
    show "\<not> path_exists w out
        \<and> files (snd (convert_single_image_with_metadata E self p w)) = files w @ [out]"
      by blast
  qed
  from free taken avoid_collision_not_exists [of w d f] stem plain meta show ?thesis
    by (simp add: first_output_filename_def)
qed

text \<open>
  The theorem at a directory that holds \<^verbatim>\<open>X.webp\<close> and \<^verbatim>\<open>X_1.webp\<close>: converting
  \<^verbatim>\<open>X.png\<close> gives \<^verbatim>\<open>X_2.webp\<close>, converting \<^verbatim>\<open>Y.jpg\<close> gives \<^verbatim>\<open>Y.webp\<close>.
\<close>

theorem output_path_first_free_candidate_witness:
  "path_exists example_world (join ''/out'' (first_output_filename ''X.png''))
   \<and> \<not> path_exists example_world (join ''/out'' (first_output_filename ''Y.jpg''))
   \<and> list_ex (\<lambda>c. c \<noteq> CHR ''.'') (basename ''/in/X.png'')
   \<and> fst (convert_single_image example_env example_worker ''/in/X.png'' example_world)
       = Inr ''/out/X_2.webp''
   \<and> fst (convert_single_image_with_metadata example_env example_worker ''/in/X.png''
        example_world) = Inr ''/out/X_2.webp''
   \<and> fst (avoid_collision example_world ''/out'' ''X.png'') = ''/out/X_2.webp''
   \<and> fst (avoid_collision example_world ''/out'' ''Y.jpg'') = ''/out/Y.webp''
   \<and> \<not> path_exists example_world ''/out/X_2.webp''
   \<and> fst (splitext (first_output_filename (basename ''/in/X.png''))) = ''X''
   \<and> files (snd (convert_single_image example_env example_worker ''/in/X.png'' example_world))
       = files example_world @ [''/out/X_2.webp'']
   \<and> files (snd (convert_single_image_with_metadata example_env example_worker ''/in/X.png''
        example_world)) = files example_world @ [''/out/X_2.webp'']"
proof -
  have h1: "path_exists example_world (join ''/out'' (first_output_filename ''X.png''))"
    by code_simp
  have h2: "\<not> path_exists example_world (join ''/out'' (first_output_filename ''Y.jpg''))"
    by code_simp
  have h3: "list_ex (\<lambda>c. c \<noteq> CHR ''.'') (basename ''/in/X.png'')"
    by code_simp
  have h4: "fst (convert_single_image example_env example_worker ''/in/X.png'' example_world)
       = Inr ''/out/X_2.webp''"
    by code_simp
  have h5: "fst (convert_single_image_with_metadata example_env example_worker ''/in/X.png''
        example_world) = Inr ''/out/X_2.webp''"
    by code_simp
  have e1: "fst (avoid_collision example_world ''/out'' ''X.png'') = ''/out/X_2.webp''"
    by code_simp
  have e2: "join ''/out'' (first_output_filename ''Y.jpg'') = ''/out/Y.webp''"
    by code_simp
  have e3: "fst (splitext (basename ''/in/X.png'')) = ''X''"
    by code_simp
  note X = output_path_first_free_candidate
    [of example_world "''/out''" "''X.png''" "''/in/X.png''" example_env example_worker
      "''/out/X_2.webp''"]
  note Y = output_path_first_free_candidate
    [of example_world "''/out''" "''Y.jpg''" "''/in/X.png''" example_env example_worker
      "''/out/X_2.webp''"]
  from X h3 h4 h5 e1 e3 Y h2 e2 h1 show ?thesis by simp
qed

subsection \<open>Two tasks between check and save\<close>

lemma convert_single_image_two_steps:
  "convert_single_image E self p w =
     (case resolve_output E self p w of
        (Inl e, w') \<Rightarrow> (Inl e, w')
      | (Inr (filename, output_path), w') \<Rightarrow> write_output E self p filename output_path w')"
  by (simp add: convert_single_image_def resolve_output_def write_output_def Let_def
      split: sum.splits)

lemma run_schedule_one_task:
  "run_schedule E self [0, 0] ([Submitted p], w)
     = ([Returned (fst (convert_single_image E self p w))],
        snd (convert_single_image E self p w))"
  by (simp add: task_step_def convert_single_image_two_steps Let_def
      split: prod.splits sum.splits)

lemma run_schedule_in_order:
  "run_schedule E self (concat (map (\<lambda>k. [k, k]) [n..<n + length ps]))
       (done @ map Submitted ps, w)
     = (done @ map Returned (fst (run_tasks (convert_single_image E self) ps w)),
        snd (run_tasks (convert_single_image E self) ps w))"
  if "length done = n"
  using that
proof (induction ps arbitrary: n "done" w)
  case Nil
  then show ?case by simp
next
  case (Cons p ps)
  have step: "run_schedule E self ([n, n] @ sched) (done @ Submitted p # rest, w)
      = run_schedule E self sched
          (done @ Returned (fst (convert_single_image E self p w)) # rest,
           snd (convert_single_image E self p w))" for sched rest
    using Cons.prems
    by (simp add: task_step_def convert_single_image_two_steps Let_def nth_append
        list_update_append split: prod.splits sum.splits)
  have upt: "[n..<n + length (p # ps)] = n # [Suc n..<Suc n + length ps]"
    by (simp add: upt_rec)
  have "run_schedule E self (concat (map (\<lambda>k. [k, k]) [n..<n + length (p # ps)]))
       (done @ map Submitted (p # ps), w)
     = run_schedule E self (concat (map (\<lambda>k. [k, k]) [Suc n..<Suc n + length ps]))
         ((done @ [Returned (fst (convert_single_image E self p w))]) @ map Submitted ps,
          snd (convert_single_image E self p w))"
    unfolding upt using step [of "concat (map (\<lambda>k. [k, k]) [Suc n..<Suc n + length ps])"
        "map Submitted ps"]
    by simp
  also have "\<dots> = ((done @ [Returned (fst (convert_single_image E self p w))])
        @ map Returned (fst (run_tasks (convert_single_image E self) ps
              (snd (convert_single_image E self p w)))),
      snd (run_tasks (convert_single_image E self) ps (snd (convert_single_image E self p w))))"
    using Cons.prems by (intro Cons.IH) simp
  finally show ?case by (simp add: Let_def)
qed

text \<open>
  Claim C3 at two inputs \<^verbatim>\<open>/a/X.png\<close> and \<^verbatim>\<open>/b/X.png\<close> converted into the empty
  folder \<^verbatim>\<open>/out\<close> by a pool of two threads, when both tasks check before either
  saves. Both find \<^verbatim>\<open>/out/X.webp\<close> free and choose it; when the second task saves,
  the path names the file the first task has written, and the save replaces it. Nothing
  is renamed, and both tasks return the same path.
\<close>

theorem concurrent_tasks_overwrite_output:
  "fst (run_schedule example_env race_worker [0, 1, 0]
          (map Submitted (file_paths race_worker), race_world))
     = [Returned (Inr ''/out/X.webp''), Resolved ''/b/X.png'' ''X.png'' ''/out/X.webp'']
   \<and> path_exists
         (snd (run_schedule example_env race_worker [0, 1, 0]
                 (map Submitted (file_paths race_worker), race_world)))
         ''/out/X.webp''
   \<and> run_schedule example_env race_worker [0, 1, 0, 1]
         (map Submitted (file_paths race_worker), race_world)
       = ([Returned (Inr ''/out/X.webp''), Returned (Inr ''/out/X.webp'')],
          \<lparr>dirs = [''/a'', ''/b'', ''/out''],
           files = [''/a/X.png'', ''/b/X.png'', ''/out/X.webp''],
           written =
             [(''/out/X.webp'',
               \<lparr>w_source = ''/a/X.png'', w_quality = 87, w_lossless = False,
                w_method = None, w_rgb = False, w_exif = []\<rparr>),
              (''/out/X.webp'',
               \<lparr>w_source = ''/b/X.png'', w_quality = 87, w_lossless = False,
                w_method = None, w_rgb = False, w_exif = []\<rparr>)],
           renamed_files = []\<rparr>)"
  by code_simp

section \<open>Properties of the rename log\<close>

lemma convert_single_image_renamed:
  assumes "image_open E w p = Inr img" and "makedirs E w (target_dir self p) = Inr w1"
  shows "renamed_files (snd (convert_single_image E self p w))
     = renamed_files (snd (avoid_collision w1 (target_dir self p) (basename p)))"
  unfolding convert_single_image_reached [OF assms]
  by (auto split: sum.splits dest: save_Inr(4))

lemma convert_single_image_with_metadata_renamed:
  assumes "image_open E w p = Inr img" and "makedirs E w (target_dir self p) = Inr w1"
  shows "renamed_files (snd (convert_single_image_with_metadata E self p w))
     = renamed_files (snd (avoid_collision w1 (target_dir self p) (basename p)))"
  unfolding convert_single_image_with_metadata_reached [OF assms]
  by (auto split: sum.splits dest: save_Inr(4))

text \<open>
  Claim C4, as stated, fails: the entry of the rename log does not name the computed
  output file name \<^verbatim>\<open>X.webp\<close> but the file name of the input. Converting
  \<^verbatim>\<open>/in/X.png\<close> into a directory that holds \<^verbatim>\<open>X.webp\<close> logs
  \<^verbatim>\<open>X.png -> X_1.webp\<close>.
\<close>

theorem rename_record_names_input_file:
  "fst (fst (convert_images_to_webp example_env
               (example_worker\<lparr>file_paths := [''/in/X.png'']\<rparr>)
               (example_world\<lparr>files := [''/in/X.png'', ''/out/X.webp'']\<rparr>)))
     = [''X.png -> X_1.webp'']
   \<and> first_output_filename (basename ''/in/X.png'') = ''X.webp''
   \<and> fst (fst (convert_images_to_webp example_env
               (example_worker\<lparr>file_paths := [''/in/X.png'']\<rparr>)
               (example_world\<lparr>files := [''/in/X.png'', ''/out/X.webp'']\<rparr>)))
     \<noteq> [''X.webp -> X_1.webp'']"
  by code_simp

text \<open>
  Claim C4, amended. Whenever the first candidate exists, exactly one entry is appended
  to the rename log, and it pairs the file name of the input (the base name of the input
  path, e.g. \<^verbatim>\<open>X.png\<close>) with the file name finally chosen (e.g. \<^verbatim>\<open>X_1.webp\<close>);
  nothing is appended when the first candidate is free. Both workers leave the log as
  this step has left it.
\<close>

theorem rename_record_iff_collision:
  "(path_exists w (join d (first_output_filename f)) \<longrightarrow>
      (\<exists>k\<ge>1. fst (avoid_collision w d f)
                 = join d (candidate (fst (splitext (first_output_filename f))) k)
            \<and> renamed_files (snd (avoid_collision w d f))
                 = renamed_files w
                   @ [f @ '' -> '' @ candidate (fst (splitext (first_output_filename f))) k]))
   \<and> (\<not> path_exists w (join d (first_output_filename f)) \<longrightarrow>
        renamed_files (snd (avoid_collision w d f)) = renamed_files w)
   \<and> (image_open E w0 p = Inr img \<and> makedirs E w0 (target_dir self p) = Inr w1 \<longrightarrow>
        renamed_files (snd (convert_single_image E self p w0))
          = renamed_files (snd (avoid_collision w1 (target_dir self p) (basename p)))
        \<and> renamed_files (snd (convert_single_image_with_metadata E self p w0))
          = renamed_files (snd (avoid_collision w1 (target_dir self p) (basename p))))"
proof (intro conjI impI)
  assume "path_exists w (join d (first_output_filename f))"
  from avoid_collision_taken [OF this]
  show "\<exists>k\<ge>1. fst (avoid_collision w d f)
                 = join d (candidate (fst (splitext (first_output_filename f))) k)
            \<and> renamed_files (snd (avoid_collision w d f))
                 = renamed_files w
                   @ [f @ '' -> '' @ candidate (fst (splitext (first_output_filename f))) k]"
    by auto
next
  assume "\<not> path_exists w (join d (first_output_filename f))"
  then show "renamed_files (snd (avoid_collision w d f)) = renamed_files w"
    by (simp add: avoid_collision_free)
next
  assume a: "image_open E w0 p = Inr img \<and> makedirs E w0 (target_dir self p) = Inr w1"
  then show "renamed_files (snd (convert_single_image E self p w0))
          = renamed_files (snd (avoid_collision w1 (target_dir self p) (basename p)))"
    by (simp add: convert_single_image_renamed)
  from a show "renamed_files (snd (convert_single_image_with_metadata E self p w0))
          = renamed_files (snd (avoid_collision w1 (target_dir self p) (basename p)))"
    by (simp add: convert_single_image_with_metadata_renamed)
qed

text \<open>The theorem at \<^verbatim>\<open>X.png\<close>, whose first candidate exists, and \<^verbatim>\<open>Y.jpg\<close>, whose is free.\<close>

theorem rename_record_iff_collision_witness:
  "path_exists example_world (join ''/out'' (first_output_filename ''X.png''))
   \<and> \<not> path_exists example_world (join ''/out'' (first_output_filename ''Y.jpg''))
   \<and> image_open example_env example_world ''/in/X.png'' = Inr \<lparr>info = [], exif = []\<rparr>
   \<and> makedirs example_env example_world (target_dir example_worker ''/in/X.png'')
       = Inr example_world
   \<and> renamed_files (snd (avoid_collision example_world ''/out'' ''X.png''))
       = [''X.png -> X_2.webp'']
   \<and> renamed_files (snd (avoid_collision example_world ''/out'' ''Y.jpg'')) = []
   \<and> renamed_files (snd (convert_single_image example_env example_worker ''/in/X.png''
         example_world)) = [''X.png -> X_2.webp'']
   \<and> renamed_files (snd (convert_single_image_with_metadata example_env example_worker
         ''/in/X.png'' example_world)) = [''X.png -> X_2.webp'']"
proof -
  have h1: "path_exists example_world (join ''/out'' (first_output_filename ''X.png''))"
    by code_simp
  have h2: "\<not> path_exists example_world (join ''/out'' (first_output_filename ''Y.jpg''))"
    by code_simp
  have h3: "image_open example_env example_world ''/in/X.png'' = Inr \<lparr>info = [], exif = []\<rparr>"
    by code_simp
  have h4: "makedirs example_env example_world (target_dir example_worker ''/in/X.png'')
       = Inr example_world"
    by code_simp
  have e0: "renamed_files example_world = []" by code_simp
  have e1: "renamed_files (snd (avoid_collision example_world ''/out'' ''X.png''))
       = [''X.png -> X_2.webp'']"
    by code_simp
  have e2: "basename ''/in/X.png'' = ''X.png''" "target_dir example_worker ''/in/X.png'' = ''/out''"
    by code_simp+
  note X = rename_record_iff_collision
    [of example_world "''/out''" "''X.png''" example_env example_world "''/in/X.png''"
      "\<lparr>info = [], exif = []\<rparr>" example_worker example_world]
  note Y = rename_record_iff_collision
    [of example_world "''/out''" "''Y.jpg''" example_env example_world "''/in/X.png''"
      "\<lparr>info = [], exif = []\<rparr>" example_worker example_world]
  from X Y h1 h2 h3 h4 e0 e1 e2 show ?thesis by simp
qed

text \<open>
  Claim C10. In metadata-preserving mode an input that is not a PNG is rejected only
  after the output path has been resolved: once the image has been opened and the
  directory made, the directory exists, the rename log has its entry if the first
  candidate existed (and is unchanged if not), no file is written, and the outcome is
  the failure with the message of the format check.
\<close>

theorem non_png_side_effects_precede_rejection:
  assumes "image_open E w p = Inr img"
    and "makedirs E w (target_dir self p) = Inr w1"
    and "\<not> is_png (basename p)"
  shows "fst (convert_single_image_with_metadata E self p w)
           = Inl (failed_to_convert (basename p) (not_png_message (basename p)))
    \<and> snd (convert_single_image_with_metadata E self p w)
           = snd (avoid_collision w1 (target_dir self p) (basename p))
    \<and> target_dir self p \<in> set (dirs (snd (convert_single_image_with_metadata E self p w)))
    \<and> files (snd (convert_single_image_with_metadata E self p w)) = files w
    \<and> written (snd (convert_single_image_with_metadata E self p w)) = written w
    \<and> (path_exists w1 (join (target_dir self p) (first_output_filename (basename p))) \<longrightarrow>
         (\<exists>k\<ge>1. renamed_files (snd (convert_single_image_with_metadata E self p w))
            = renamed_files w
              @ [basename p @ '' -> ''
                 @ candidate (fst (splitext (first_output_filename (basename p)))) k]))
    \<and> (\<not> path_exists w1 (join (target_dir self p) (first_output_filename (basename p))) \<longrightarrow>
         renamed_files (snd (convert_single_image_with_metadata E self p w)) = renamed_files w)"
proof -
  let ?d = "target_dir self p" and ?f = "basename p"
  note unf = convert_single_image_with_metadata_reached [OF assms(1,2)]
  have res: "fst (convert_single_image_with_metadata E self p w)
           = Inl (failed_to_convert ?f (not_png_message ?f))"
    and st: "snd (convert_single_image_with_metadata E self p w) = snd (avoid_collision w1 ?d ?f)"
    using assms(3) by (simp_all add: unf)
  have d: "?d \<in> set (dirs (snd (avoid_collision w1 ?d ?f)))"
    using makedirs_Inr(1) [OF assms(2)] by (simp add: avoid_collision_world)
  have fw: "files (snd (avoid_collision w1 ?d ?f)) = files w"
    "written (snd (avoid_collision w1 ?d ?f)) = written w"
    using makedirs_Inr(2,3) [OF assms(2)] by (simp_all add: avoid_collision_world)
  have r1: "path_exists w1 (join ?d (first_output_filename ?f)) \<longrightarrow>
         (\<exists>k\<ge>1. renamed_files (snd (avoid_collision w1 ?d ?f))
            = renamed_files w
              @ [?f @ '' -> '' @ candidate (fst (splitext (first_output_filename ?f))) k])"
  proof
    assume "path_exists w1 (join ?d (first_output_filename ?f))"
    from avoid_collision_taken [OF this] makedirs_Inr(4) [OF assms(2)]
    show "\<exists>k\<ge>1. renamed_files (snd (avoid_collision w1 ?d ?f))
            = renamed_files w
              @ [?f @ '' -> '' @ candidate (fst (splitext (first_output_filename ?f))) k]"
      by auto
  qed
  have r2: "\<not> path_exists w1 (join ?d (first_output_filename ?f)) \<longrightarrow>
         renamed_files (snd (avoid_collision w1 ?d ?f)) = renamed_files w"
    using makedirs_Inr(4) [OF assms(2)] by (simp add: avoid_collision_free)
  from res d fw r1 r2 show ?thesis unfolding st by simp
qed

text \<open>
  The theorem at \<^verbatim>\<open>/in/Y.jpg\<close> with the output directory absent and
  \<^verbatim>\<open>/out/Y.webp\<close> taken, and at the example filesystem, where the candidate is free.
\<close>

theorem non_png_side_effects_precede_rejection_witness:
  "image_open example_env (example_world\<lparr>dirs := [], files := [''/in/Y.jpg'', ''/out/Y.webp'']\<rparr>)
      ''/in/Y.jpg'' = Inr \<lparr>info = [], exif = []\<rparr>
   \<and> makedirs example_env (example_world\<lparr>dirs := [], files := [''/in/Y.jpg'', ''/out/Y.webp'']\<rparr>)
        (target_dir example_worker ''/in/Y.jpg'')
       = Inr (example_world\<lparr>dirs := [''/out''], files := [''/in/Y.jpg'', ''/out/Y.webp'']\<rparr>)
   \<and> \<not> is_png (basename ''/in/Y.jpg'')
   \<and> path_exists (example_world\<lparr>dirs := [''/out''], files := [''/in/Y.jpg'', ''/out/Y.webp'']\<rparr>)
        (join (target_dir example_worker ''/in/Y.jpg'')
           (first_output_filename (basename ''/in/Y.jpg'')))
   \<and> \<not> path_exists example_world
        (join (target_dir example_worker ''/in/Y.jpg'')
           (first_output_filename (basename ''/in/Y.jpg'')))
   \<and> convert_single_image_with_metadata example_env example_worker ''/in/Y.jpg''
        (example_world\<lparr>dirs := [], files := [''/in/Y.jpg'', ''/out/Y.webp'']\<rparr>)
      = (Inl (failed_to_convert ''Y.jpg'' (not_png_message ''Y.jpg'')),
         \<lparr>dirs = [''/out''], files = [''/in/Y.jpg'', ''/out/Y.webp''], written = [],
          renamed_files = [''Y.jpg -> Y_1.webp'']\<rparr>)
   \<and> target_dir example_worker ''/in/Y.jpg''
        \<in> set (dirs (snd (convert_single_image_with_metadata example_env example_worker
              ''/in/Y.jpg''
              (example_world\<lparr>dirs := [], files := [''/in/Y.jpg'', ''/out/Y.webp'']\<rparr>))))
   \<and> renamed_files (snd (convert_single_image_with_metadata example_env example_worker
          ''/in/Y.jpg'' example_world)) = renamed_files example_world"
proof -
  let ?w = "example_world\<lparr>dirs := [], files := [''/in/Y.jpg'', ''/out/Y.webp'']\<rparr>"
  let ?w1 = "example_world\<lparr>dirs := [''/out''], files := [''/in/Y.jpg'', ''/out/Y.webp'']\<rparr>"
  have h1: "image_open example_env ?w ''/in/Y.jpg'' = Inr \<lparr>info = [], exif = []\<rparr>"
    by code_simp
  have h2: "makedirs example_env ?w (target_dir example_worker ''/in/Y.jpg'') = Inr ?w1"
    by code_simp
  have h3: "\<not> is_png (basename ''/in/Y.jpg'')"
    by code_simp
  have h4: "path_exists ?w1 (join (target_dir example_worker ''/in/Y.jpg'')
           (first_output_filename (basename ''/in/Y.jpg'')))"
    by code_simp
  have g1: "image_open example_env example_world ''/in/Y.jpg'' = Inr \<lparr>info = [], exif = []\<rparr>"
    by code_simp
  have g2: "makedirs example_env example_world (target_dir example_worker ''/in/Y.jpg'')
      = Inr example_world"
    by code_simp
  have g4: "\<not> path_exists example_world
        (join (target_dir example_worker ''/in/Y.jpg'')
           (first_output_filename (basename ''/in/Y.jpg'')))"
    by code_simp
  have e: "convert_single_image_with_metadata example_env example_worker ''/in/Y.jpg'' ?w
      = (Inl (failed_to_convert ''Y.jpg'' (not_png_message ''Y.jpg'')),
         \<lparr>dirs = [''/out''], files = [''/in/Y.jpg'', ''/out/Y.webp''], written = [],
          renamed_files = [''Y.jpg -> Y_1.webp'']\<rparr>)"
    by code_simp
  note A = non_png_side_effects_precede_rejection [OF h1 h2 h3]
  note B = non_png_side_effects_precede_rejection [OF g1 g2 h3]
  from A have a: "target_dir example_worker ''/in/Y.jpg''
        \<in> set (dirs (snd (convert_single_image_with_metadata example_env example_worker
              ''/in/Y.jpg'' ?w)))"
    by blast
  from B g4 have b: "renamed_files (snd (convert_single_image_with_metadata example_env
      example_worker ''/in/Y.jpg'' example_world)) = renamed_files example_world"
    by blast
  from h1 h2 h3 h4 g4 e a b show ?thesis by blast
qed

section \<open>Properties of the batch\<close>

lemma collect_fst: "fst (collect i n fs (s, e)) = s @ [r. Inr r \<leftarrow> fs]"
proof (induction fs arbitrary: i s e)
  case Nil
  then show ?case by simp
next
  case (Cons f fs)
  then show ?case by (cases f) simp_all
qed

lemma collect_snd:
  "snd (collect i n fs (s, e)) = e @ map (signal_of n) (List.enumerate i fs)"
proof (induction fs arbitrary: i s e)
  case Nil
  then show ?case by simp
next
  case (Cons f fs)
  then show ?case by (cases f) (simp_all add: signal_of_def)
qed

lemma run_tasks_length: "length (fst (run_tasks task ps w)) = length ps"
  by (induction ps arbitrary: w) (simp_all add: Let_def)

lemma run_tasks_nth:
  "i < length ps \<Longrightarrow>
   fst (run_tasks task ps w) ! i = fst (task (ps ! i) (snd (run_tasks task (take i ps) w)))"
proof (induction ps arbitrary: w i)
  case Nil
  then show ?case by simp
next
  case (Cons p ps)
  then show ?case by (cases i) (simp_all add: Let_def)
qed

lemma rights_lefts_length:
  "length [r. Inr r \<leftarrow> fs] + length [m. Inl m \<leftarrow> fs] = length fs"
proof (induction fs)
  case Nil
  then show ?case by simp
next
  case (Cons f fs)
  then show ?case by (cases f) simp_all
qed

lemma errors_of_signals:
  "[m. Error m \<leftarrow> map (signal_of n) (List.enumerate i fs)] = [m. Inl m \<leftarrow> fs]"
proof (induction fs arbitrary: i)
  case Nil
  then show ?case by simp
next
  case (Cons f fs)
  then show ?case by (cases f) (simp_all add: signal_of_def)
qed

lemma progress_of_signals:
  "[v. Progress v \<leftarrow> map (signal_of n) xs]
     = map (\<lambda>kf. progress_percent (fst kf) n) (filter (\<lambda>kf. \<not> isl (snd kf)) xs)"
proof (induction xs)
  case Nil
  then show ?case by simp
next
  case (Cons x xs)
  then show ?case by (cases "snd x") (simp_all add: signal_of_def)
qed

lemma convert_batch_result:
  "convert_batch task ps w =
     ((renamed_files (snd (run_tasks task ps (w\<lparr>renamed_files := []\<rparr>))),
       [r. Inr r \<leftarrow> fst (run_tasks task ps (w\<lparr>renamed_files := []\<rparr>))]),
      map (signal_of (length ps))
        (List.enumerate 0 (fst (run_tasks task ps (w\<lparr>renamed_files := []\<rparr>)))),
      snd (run_tasks task ps (w\<lparr>renamed_files := []\<rparr>)))"
  by (simp add: convert_batch_def Let_def collect_fst collect_snd run_tasks_length)



lemma run_result:
  "run E self w =
     (map (signal_of (length (file_paths self)))
        (List.enumerate 0
           (fst (run_tasks (task_of E self) (file_paths self) (w\<lparr>renamed_files := []\<rparr>))))
      @ [Finished
           (renamed_files
              (snd (run_tasks (task_of E self) (file_paths self) (w\<lparr>renamed_files := []\<rparr>))))
           [r. Inr r \<leftarrow> fst (run_tasks (task_of E self) (file_paths self)
                               (w\<lparr>renamed_files := []\<rparr>))]],
      snd (run_tasks (task_of E self) (file_paths self) (w\<lparr>renamed_files := []\<rparr>)))"
  by (simp add: run_def task_of_def convert_images_to_webp_def
      convert_images_to_webp_with_metadata_def convert_batch_result Let_def)

text \<open>
  Claim C1. Every input path of a request yields exactly one outcome. The futures are as
  many as the paths; the task of each path is run, on the filesystem the earlier tasks
  have left, whatever their outcome was; the signals of the run are one per future, in
  order (\<open>Progress\<close> for a result, \<open>Error\<close> for an exception), followed by \<open>Finished\<close>
  with the success list, which holds exactly the results; the errors emitted are exactly
  the exceptions, and results and exceptions together are as many as the paths.
\<close>

theorem every_input_yields_one_outcome:
  "let ps = file_paths self;
       w0 = w\<lparr>renamed_files := []\<rparr>;
       futures = fst (run_tasks (task_of E self) ps w0)
   in length futures = length ps
      \<and> (\<forall>i<length ps.
            futures ! i = fst (task_of E self (ps ! i) (snd (run_tasks (task_of E self) (take i ps) w0))))
      \<and> fst (run E self w)
          = map (signal_of (length ps)) (List.enumerate 0 futures)
            @ [Finished (renamed_files (snd (run_tasks (task_of E self) ps w0)))
                 [r. Inr r \<leftarrow> futures]]
      \<and> [m. Error m \<leftarrow> fst (run E self w)] = [m. Inl m \<leftarrow> futures]
      \<and> length [r. Inr r \<leftarrow> futures] + length [m. Inl m \<leftarrow> futures] = length ps"
proof -
  define ps where "ps = file_paths self"
  define w0 where "w0 = w\<lparr>renamed_files := []\<rparr>"
  define futures where "futures = fst (run_tasks (task_of E self) ps w0)"
  have len: "length futures = length ps"
    by (simp add: futures_def run_tasks_length)
  have nth: "\<forall>i<length ps.
      futures ! i = fst (task_of E self (ps ! i) (snd (run_tasks (task_of E self) (take i ps) w0)))"
    by (simp add: futures_def run_tasks_nth)
  have sig: "fst (run E self w)
      = map (signal_of (length ps)) (List.enumerate 0 futures)
        @ [Finished (renamed_files (snd (run_tasks (task_of E self) ps w0)))
             [r. Inr r \<leftarrow> futures]]"
    by (simp add: run_result futures_def ps_def w0_def)
  have err: "[m. Error m \<leftarrow> fst (run E self w)] = [m. Inl m \<leftarrow> futures]"
    using errors_of_signals [of "length ps" 0 futures] by (simp add: sig)
  have cnt: "length [r. Inr r \<leftarrow> futures] + length [m. Inl m \<leftarrow> futures] = length ps"
    using rights_lefts_length [of futures] len by simp
  from len nth sig err cnt show ?thesis
    unfolding Let_def ps_def [symmetric] w0_def [symmetric] futures_def [symmetric] by blast
qed

text \<open>
  The theorem at a batch of three paths whose second does not exist: the second task
  fails, the third is still run, and each of the three has its one signal.
\<close>

theorem every_input_yields_one_outcome_witness:
  "(1::nat) < length (file_paths example_worker)
   \<and> fst (run_tasks (task_of example_env example_worker) (file_paths example_worker)
           (example_world\<lparr>renamed_files := []\<rparr>)) ! 1
      = fst (task_of example_env example_worker (file_paths example_worker ! 1)
           (snd (run_tasks (task_of example_env example_worker)
                  (take 1 (file_paths example_worker)) (example_world\<lparr>renamed_files := []\<rparr>))))
   \<and> fst (run_tasks (task_of example_env example_worker) (file_paths example_worker)
           (example_world\<lparr>renamed_files := []\<rparr>))
      = [Inr ''/out/X_2.webp'', Inl ''cannot access local variable filename'',
         Inr ''/out/Y.webp'']
   \<and> fst (run example_env example_worker example_world)
      = [Progress 33, Error ''cannot access local variable filename'', Progress 100,
         Finished [''X.png -> X_2.webp''] [''/out/X_2.webp'', ''/out/Y.webp'']]"
proof -
  have h: "(1::nat) < length (file_paths example_worker)" by code_simp
  have f: "fst (run_tasks (task_of example_env example_worker) (file_paths example_worker)
           (example_world\<lparr>renamed_files := []\<rparr>))
      = [Inr ''/out/X_2.webp'', Inl ''cannot access local variable filename'',
         Inr ''/out/Y.webp'']"
    by code_simp
  have r: "fst (run example_env example_worker example_world)
      = [Progress 33, Error ''cannot access local variable filename'', Progress 100,
         Finished [''X.png -> X_2.webp''] [''/out/X_2.webp'', ''/out/Y.webp'']]"
    by code_simp
  from every_input_yields_one_outcome [of example_worker example_world example_env] h
  have "fst (run_tasks (task_of example_env example_worker) (file_paths example_worker)
           (example_world\<lparr>renamed_files := []\<rparr>)) ! 1
      = fst (task_of example_env example_worker (file_paths example_worker ! 1)
           (snd (run_tasks (task_of example_env example_worker)
                  (take 1 (file_paths example_worker)) (example_world\<lparr>renamed_files := []\<rparr>))))"
    unfolding Let_def by blast
  with h f r show ?thesis by simp
qed

text \<open>
  Claim C6, as stated, fails: a task that fails emits \<open>Error\<close> and no \<open>Progress\<close>. In
  the batch of three paths whose second fails there are two progress notifications.
\<close>

theorem failed_input_emits_no_progress:
  "fst (run example_env example_worker example_world)
     = [Progress 33, Error ''cannot access local variable filename'', Progress 100,
        Finished [''X.png -> X_2.webp''] [''/out/X_2.webp'', ''/out/Y.webp'']]
   \<and> length (file_paths example_worker) = 3
   \<and> length [v. Progress v \<leftarrow> fst (run example_env example_worker example_world)] = 2"
  by code_simp

text \<open>
  Claim C6, amended. A progress notification is emitted exactly once for each task that
  succeeds and none for a task that fails, which emits an error notification instead.
  Its value is \<^verbatim>\<open>int((i + 1) / total * 100)\<close> in floating point, where \<open>i\<close> is the
  position of the task among all tasks, failed ones included.
\<close>

theorem progress_once_per_success:
  "[v. Progress v \<leftarrow> fst (run E self w)]
     = map (\<lambda>kf. progress_percent (fst kf) (length (file_paths self)))
         (filter (\<lambda>kf. \<not> isl (snd kf))
            (List.enumerate 0
               (fst (run_tasks (task_of E self) (file_paths self) (w\<lparr>renamed_files := []\<rparr>)))))
   \<and> [m. Error m \<leftarrow> fst (run E self w)]
       = [m. Inl m \<leftarrow> fst (run_tasks (task_of E self) (file_paths self)
                             (w\<lparr>renamed_files := []\<rparr>))]
   \<and> length [v. Progress v \<leftarrow> fst (run E self w)]
       = length [r. Inr r \<leftarrow> fst (run_tasks (task_of E self) (file_paths self)
                                   (w\<lparr>renamed_files := []\<rparr>))]
   \<and> progress_percent i n = py_int (fl64 (fl64 (of_nat (i + 1) / of_nat n) * 100))"
proof -
  let ?fs = "fst (run_tasks (task_of E self) (file_paths self) (w\<lparr>renamed_files := []\<rparr>))"
  let ?n = "length (file_paths self)"
  have sig: "fst (run E self w) = map (signal_of ?n) (List.enumerate 0 ?fs)
      @ [Finished (renamed_files (snd (run_tasks (task_of E self) (file_paths self)
            (w\<lparr>renamed_files := []\<rparr>)))) [r. Inr r \<leftarrow> ?fs]]"
    by (simp add: run_result)
  have p: "[v. Progress v \<leftarrow> fst (run E self w)]
     = map (\<lambda>kf. progress_percent (fst kf) ?n)
         (filter (\<lambda>kf. \<not> isl (snd kf)) (List.enumerate 0 ?fs))"
    using progress_of_signals [of ?n "List.enumerate 0 ?fs"] by (simp add: sig)
  have e: "[m. Error m \<leftarrow> fst (run E self w)] = [m. Inl m \<leftarrow> ?fs]"
    using errors_of_signals [of ?n 0 ?fs] by (simp add: sig)
  have "length (filter (\<lambda>kf. \<not> isl (snd kf)) (List.enumerate i fs)) = length [r. Inr r \<leftarrow> fs]"
    for i and fs :: "(string + string) list"
  proof (induction fs arbitrary: i)
    case Nil
    then show ?case by simp
  next
    case (Cons f fs)
    then show ?case by (cases f) simp_all
  qed
  then have c: "length [v. Progress v \<leftarrow> fst (run E self w)] = length [r. Inr r \<leftarrow> ?fs]"
    by (simp only: p length_map)
  from p e c show ?thesis by (simp add: progress_percent_def)
qed

subsection \<open>Rounding to a double is monotone\<close>

lemma bitlen_rat_bounds:
  assumes "0 < (a::int)"
  shows "power_int (2::rat) (bitlen a - 1) \<le> of_int a"
    and "of_int a < power_int (2::rat) (bitlen a)"
proof -
  from bitlen_bounds [OF assms]
  have lo: "2 ^ nat (bitlen a - 1) \<le> a" and hi: "a < 2 ^ nat (bitlen a)"
    by simp_all
  have ge1: "1 \<le> bitlen a" using assms by (auto simp: bitlen_alt_def)
  from lo have "(of_int (2 ^ nat (bitlen a - 1)) :: rat) \<le> of_int a"
    by (simp only: of_int_le_iff)
  then show "power_int (2::rat) (bitlen a - 1) \<le> of_int a"
    using ge1 by (simp add: power_int_def)
  from hi have "(of_int a :: rat) < of_int (2 ^ nat (bitlen a))"
    by (simp only: of_int_less_iff)
  then show "of_int a < power_int (2::rat) (bitlen a)"
    using ge1 by (simp add: power_int_def)
qed

lemma binade_bounds:
  assumes "0 < q"
  shows "power_int 2 (binade q) \<le> q" and "q < power_int 2 (binade q + 1)"
proof -
  obtain a b where ab: "quotient_of q = (a, b)" by (cases "quotient_of q")
  then have b: "0 < b" by (rule quotient_of_denom_pos)
  from ab have q: "q = of_int a / of_int b" by (rule quotient_of_div)
  with assms b have a: "0 < a" by (simp add: zero_less_divide_iff)
  define d where "d = bitlen a - bitlen b"
  note A = bitlen_rat_bounds [OF a] and B = bitlen_rat_bounds [OF b]
  have bpos: "(0::rat) < of_int b" using b by simp
  have "q < power_int 2 (bitlen a) / power_int 2 (bitlen b - 1)"
    unfolding q using A(2) B(1) bpos a
    by (intro frac_less) (auto simp: less_imp_le)
  also have "\<dots> = power_int 2 (d + 1)"
    by (simp add: d_def power_int_diff [symmetric] algebra_simps)
  finally have up: "q < power_int 2 (d + 1)" .
  have "power_int 2 (d - 1) = power_int (2::rat) (bitlen a - 1) / power_int 2 (bitlen b)"
    by (simp add: d_def power_int_diff [symmetric] algebra_simps)
  also have "\<dots> \<le> q"
    unfolding q using A(1) B(2) bpos a
    by (intro frac_le) (auto simp: less_imp_le)
  finally have lo: "power_int 2 (d - 1) \<le> q" .
  have bin: "binade q = (if q < power_int 2 d then d - 1 else d)"
    by (simp add: binade_def ab d_def Let_def)
  show "power_int 2 (binade q) \<le> q" using lo by (simp add: bin)
  show "q < power_int 2 (binade q + 1)" using up by (simp add: bin)
qed

lemma binade_mono:
  assumes "0 < q" and "q \<le> q'"
  shows "binade q \<le> binade q'"
proof (rule ccontr)
  assume "\<not> binade q \<le> binade q'"
  then have "binade q' + 1 \<le> binade q" by simp
  then have "power_int (2::rat) (binade q' + 1) \<le> power_int 2 (binade q)"
    by (intro power_int_increasing) simp_all
  also have "\<dots> \<le> q" using assms(1) by (rule binade_bounds)
  also have "\<dots> \<le> q'" by fact
  also have "\<dots> < power_int 2 (binade q' + 1)" using assms by (intro binade_bounds) simp
  finally show False by simp
qed

lemma round_half_even_of_int: "round_half_even (of_int k) = k"
  by (simp add: round_half_even_def)

lemma round_half_even_floor:
  "\<lfloor>x\<rfloor> \<le> round_half_even x" "round_half_even x \<le> \<lfloor>x\<rfloor> + 1"
  by (simp_all add: round_half_even_def Let_def)

lemma round_half_even_mono:
  assumes "x \<le> y"
  shows "round_half_even x \<le> round_half_even y"
proof (cases "\<lfloor>x\<rfloor> = \<lfloor>y\<rfloor>")
  case True
  with assms show ?thesis by (auto simp: round_half_even_def Let_def)
next
  case False
  with assms have "\<lfloor>x\<rfloor> + 1 \<le> \<lfloor>y\<rfloor>" using floor_mono [OF assms] by linarith
  with round_half_even_floor(2) [of x] round_half_even_floor(1) [of y] show ?thesis
    by linarith
qed

lemma round_half_even_le: "x \<le> of_int k \<Longrightarrow> round_half_even x \<le> k"
  using round_half_even_mono [of x "of_int k"] by (simp add: round_half_even_of_int)

lemma round_half_even_ge: "of_int k \<le> x \<Longrightarrow> k \<le> round_half_even x"
  using round_half_even_mono [of "of_int k" x] by (simp add: round_half_even_of_int)

lemma fl64_pos_upper:
  assumes "0 < q"
  shows "fl64_pos q \<le> power_int 2 (ulp_exp q + 53)"
proof -
  let ?k = "ulp_exp q"
  have "q < power_int 2 (binade q + 1)" using assms by (rule binade_bounds)
  also have "\<dots> \<le> power_int 2 (?k + 53)"
    by (intro power_int_increasing) (simp_all add: ulp_exp_def)
  finally have "q \<le> power_int 2 (?k + 53)" by simp
  then have "q / power_int 2 ?k \<le> power_int 2 (?k + 53) / power_int 2 ?k"
    by (intro divide_right_mono) simp_all
  also have "\<dots> = of_int (2 ^ 53)"
    by (simp add: power_int_add)
  finally have "round_half_even (q / power_int 2 ?k) \<le> 2 ^ 53"
    by (rule round_half_even_le)
  then have "(of_int (round_half_even (q / power_int 2 ?k)) :: rat) \<le> of_int (2 ^ 53)"
    by (simp only: of_int_le_iff)
  then have "fl64_pos q \<le> of_int (2 ^ 53) * power_int 2 ?k"
    unfolding fl64_pos_def by (intro mult_right_mono) simp_all
  also have "\<dots> = power_int 2 (?k + 53)"
    by (simp add: power_int_add)
  finally show ?thesis .
qed

lemma fl64_pos_lower:
  assumes "0 < q" and "ulp_exp q = binade q - 52"
  shows "power_int 2 (binade q) \<le> fl64_pos q"
proof -
  let ?k = "ulp_exp q"
  have "power_int 2 (binade q) \<le> q" using assms(1) by (rule binade_bounds)
  then have "power_int 2 (binade q) / power_int 2 ?k \<le> q / power_int 2 ?k"
    by (intro divide_right_mono) simp_all
  moreover have "power_int 2 (binade q) / power_int (2::rat) ?k = of_int (2 ^ 52)"
    by (simp add: assms(2) power_int_diff [symmetric])
  ultimately have "2 ^ 52 \<le> round_half_even (q / power_int 2 ?k)"
    by (intro round_half_even_ge) simp
  then have "(of_int (2 ^ 52) :: rat) \<le> of_int (round_half_even (q / power_int 2 ?k))"
    by (simp only: of_int_le_iff)
  then have "of_int (2 ^ 52) * power_int 2 ?k \<le> fl64_pos q"
    unfolding fl64_pos_def by (intro mult_right_mono) simp_all
  moreover have "of_int (2 ^ 52) * power_int (2::rat) ?k = power_int 2 (binade q)"
    by (simp add: assms(2) power_int_diff power_int_add)
  ultimately show ?thesis by simp
qed

lemma fl64_pos_mono:
  assumes "0 < q" and "q \<le> q'"
  shows "fl64_pos q \<le> fl64_pos q'"
proof -
  have q': "0 < q'" using assms by simp
  have k: "ulp_exp q \<le> ulp_exp q'"
    using binade_mono [OF assms] by (simp add: ulp_exp_def)
  show ?thesis
  proof (cases "ulp_exp q = ulp_exp q'")
    case True
    have "q / power_int 2 (ulp_exp q') \<le> q' / power_int 2 (ulp_exp q')"
      using assms(2) by (intro divide_right_mono) simp_all
    then have "round_half_even (q / power_int 2 (ulp_exp q'))
        \<le> round_half_even (q' / power_int 2 (ulp_exp q'))"
      by (rule round_half_even_mono)
    then have "(of_int (round_half_even (q / power_int 2 (ulp_exp q'))) :: rat)
        \<le> of_int (round_half_even (q' / power_int 2 (ulp_exp q')))"
      by (simp only: of_int_le_iff)
    then show ?thesis
      unfolding fl64_pos_def True by (intro mult_right_mono) simp_all
  next
    case False
    with k have lt: "ulp_exp q < ulp_exp q'" by simp
    then have norm: "ulp_exp q' = binade q' - 52" unfolding ulp_exp_def by linarith
    have "fl64_pos q \<le> power_int 2 (ulp_exp q + 53)" using assms(1) by (rule fl64_pos_upper)
    also have "\<dots> \<le> power_int 2 (binade q')"
      using lt norm by (intro power_int_increasing) simp_all
    also have "\<dots> \<le> fl64_pos q'" using q' norm by (rule fl64_pos_lower)
    finally show ?thesis .
  qed
qed

lemma fl64_pos_nonneg: "0 < q \<Longrightarrow> 0 \<le> fl64_pos q"
proof -
  assume "0 < q"
  then have "(of_int 0 :: rat) \<le> q / power_int 2 (ulp_exp q)" by simp
  then have "0 \<le> round_half_even (q / power_int 2 (ulp_exp q))" by (rule round_half_even_ge)
  then show ?thesis unfolding fl64_pos_def by simp
qed

lemma fl64_nonneg: "0 \<le> q \<Longrightarrow> 0 \<le> fl64 q"
  using fl64_pos_nonneg [of q] by (auto simp: fl64_def)

lemma fl64_mono:
  assumes "0 \<le> q" and "q \<le> q'"
  shows "fl64 q \<le> fl64 q'"
proof (cases "q = 0")
  case True
  then show ?thesis using assms fl64_pos_nonneg [of q'] by (auto simp: fl64_def)
next
  case False
  with assms have "0 < q" "0 < q'" by simp_all
  with fl64_pos_mono [OF \<open>0 < q\<close> assms(2)] show ?thesis by (simp add: fl64_def)
qed

lemma progress_percent_mono:
  assumes "i \<le> j"
  shows "progress_percent i n \<le> progress_percent j n"
proof -
  let ?a = "of_nat (i + 1) / of_nat n :: rat" and ?b = "of_nat (j + 1) / of_nat n :: rat"
  have ab: "0 \<le> ?a" "?a \<le> ?b" using assms by (simp_all add: divide_right_mono)
  then have 1: "fl64 ?a \<le> fl64 ?b" by (rule fl64_mono)
  have 0: "0 \<le> fl64 ?a" using ab(1) by (rule fl64_nonneg)
  from 0 1 have 2: "fl64 (fl64 ?a * 100) \<le> fl64 (fl64 ?b * 100)"
    by (intro fl64_mono) simp_all
  have 3: "0 \<le> fl64 (fl64 ?a * 100)" using 0 by (intro fl64_nonneg) simp
  from 2 3 show ?thesis
    by (simp add: progress_percent_def py_int_def floor_mono)
qed

lemma sorted_progress_of_enumerate:
  "sorted (map (\<lambda>kf. progress_percent (fst kf) n)
             (filter P (List.enumerate i (fs :: (string + string) list))))"
proof -
  have "sorted_wrt (\<le>) (map fst (List.enumerate i fs))" by (simp add: map_fst_enumerate)
  then have "sorted_wrt (\<lambda>a b. fst a \<le> fst b) (List.enumerate i fs)"
    by (simp only: sorted_wrt_map)
  then have "sorted_wrt (\<lambda>a b. fst a \<le> fst b) (filter P (List.enumerate i fs))"
    by (rule sorted_wrt_filter)
  then have "sorted_wrt (\<lambda>a b. progress_percent (fst a) n \<le> progress_percent (fst b) n)
      (filter P (List.enumerate i fs))"
    by (rule sorted_wrt_mono_rel [rotated]) (simp add: progress_percent_mono)
  then show ?thesis by (simp add: sorted_wrt_map)
qed

text \<open>
  Claim C7. The progress values of a run, in the order of emission, are non-decreasing.
\<close>

theorem progress_values_non_decreasing:
  "sorted [v. Progress v \<leftarrow> fst (run E self w)]"
proof -
  have "[v. Progress v \<leftarrow> fst (run E self w)] =
      map (\<lambda>kf. progress_percent (fst kf) (length (file_paths self)))
        (filter (\<lambda>kf. \<not> isl (snd kf))
           (List.enumerate 0
              (fst (run_tasks (task_of E self) (file_paths self) (w\<lparr>renamed_files := []\<rparr>)))))"
    using progress_of_signals [of "length (file_paths self)"]
    by (simp add: run_result)
  then show ?thesis by (simp only: sorted_progress_of_enumerate)
qed

section \<open>Inputs that are not PNG in metadata-preserving mode\<close>







section \<open>The workflow text embedded by the metadata-preserving worker\<close>

lemma convert_single_image_with_metadata_saved:
  assumes "image_open E w p = Inr img" and "makedirs E w (target_dir self p) = Inr w1"
    and "is_png (basename p)"
    and "save_error E (snd (avoid_collision w1 (target_dir self p) (basename p)))
           (fst (avoid_collision w1 (target_dir self p) (basename p)))
           \<lparr>w_source = p, w_quality = quality self, w_lossless = False,
            w_method = Some 6, w_rgb = True,
            w_exif = AList.update 0x010e (exif_comment E img) (exif img)\<rparr> = None"
  shows "fst (convert_single_image_with_metadata E self p w)
           = Inr (fst (avoid_collision w1 (target_dir self p) (basename p)))"
    and "written (snd (convert_single_image_with_metadata E self p w))
           = written w @ [(fst (avoid_collision w1 (target_dir self p) (basename p)),
               \<lparr>w_source = p, w_quality = quality self, w_lossless = False,
                w_method = Some 6, w_rgb = True,
                w_exif = exif_tobytes
                  (AList.update 0x010e (exif_comment E img) (exif img))\<rparr>)]"
  unfolding convert_single_image_with_metadata_reached [OF assms(1,2)]
  using assms(3,4) makedirs_Inr(3) [OF assms(2)]
  by (simp_all add: save_def avoid_collision_world)

lemma encode_ascii_replace_append:
  "encode_ascii_replace (s @ t) = encode_ascii_replace s @ encode_ascii_replace t"
  by (simp add: encode_ascii_replace_def)

lemma encode_ascii_replace_ascii:
  "list_all is_ascii s \<Longrightarrow> encode_ascii_replace s = s"
  by (induction s) (simp_all add: encode_ascii_replace_def)

lemma encode_ascii_replace_prefix:
  "encode_ascii_replace ''Workflow:'' = ''Workflow:''"
  by (simp add: encode_ascii_replace_def is_ascii_def)

lemma map_of_exif_tobytes_update:
  "map_of (exif_tobytes (AList.update k t tags)) k = Some (encode_ascii_replace t)"
proof -
  have "map_of (exif_tobytes al) k = map_option encode_ascii_replace (map_of al k)"
    for al :: "(nat \<times> string) list"
    by (induction al) (auto simp: exif_tobytes_def)
  then show ?thesis by (simp add: update_conv')
qed

text \<open>
  Claim C9, as stated, fails: the raw value is handed to the encoder unmodified, but the
  encoder writes tag \<^verbatim>\<open>0x010e\<close> as ASCII. A workflow text that is not JSON and ends
  in a character outside ASCII is embedded with \<^verbatim>\<open>?\<close> in the place of that character.
\<close>

theorem non_ascii_raw_workflow_is_altered:
  "filter_workflow example_accent_env (Some accented_workflow) = None
   \<and> exif_comment example_accent_env
        \<lparr>info = [(''workflow'', accented_workflow)], exif = []\<rparr>
       = ''Workflow:'' @ accented_workflow
   \<and> convert_single_image_with_metadata example_accent_env example_worker ''/in/X.png''
        example_world
      = (Inr ''/out/X_2.webp'',
         \<lparr>dirs = [''/out''],
          files = [''/in/X.png'', ''/in/Y.jpg'', ''/out/X.webp'', ''/out/X_1.webp'',
                   ''/out/X_2.webp''],
          written = [(''/out/X_2.webp'',
             \<lparr>w_source = ''/in/X.png'', w_quality = 87, w_lossless = False,
              w_method = Some 6, w_rgb = True,
              w_exif = [(0x010e, ''Workflow:not json ?'')]\<rparr>)],
          renamed_files = [''X.png -> X_2.webp'']\<rparr>)
   \<and> ''Workflow:not json ?'' \<noteq> ''Workflow:'' @ accented_workflow"
  by code_simp

text \<open>
  Claim C9, amended. When the workflow field is absent, is not JSON, parses to something
  without a usable node list, or the filtering loop raises, the text handed to the
  encoder for tag \<^verbatim>\<open>0x010e\<close> is \<^verbatim>\<open>Workflow:\<close> followed by the raw value as it was
  read (nothing when the field is absent), never a partially filtered one, and the
  conversion goes on: whenever the image opens, the directory can be made and the file
  can be saved, the outcome is the output path. The encoder stores the text as ASCII,
  with \<^verbatim>\<open>?\<close> for every character outside ASCII, so the value embedded is the raw
  value itself when the raw value is ASCII.
\<close>

theorem filter_failure_hands_raw_workflow_to_encoder:
  "(map_of (info img) ''workflow'' = None \<longrightarrow> exif_comment E img = ''Workflow:'')
   \<and> (map_of (info img) ''workflow'' = Some raw \<and> filter_workflow E (Some raw) = None \<longrightarrow>
        exif_comment E img = ''Workflow:'' @ raw)
   \<and> (json_loads E raw = None \<longrightarrow> filter_workflow E (Some raw) = None)
   \<and> (json_loads E raw = Some (JArr xs) \<longrightarrow> filter_workflow E (Some raw) = None)
   \<and> (json_loads E raw = Some (JObj c) \<and> map_of c ''nodes'' = None \<longrightarrow>
        filter_workflow E (Some raw) = None)
   \<and> (json_loads E raw = Some (JObj c) \<and> map_of c ''nodes'' = Some (JArr nodes)
        \<and> lora_loop (py_eq (num_eq E) (num_eq_bool E)) 0 nodes = None \<longrightarrow>
        filter_workflow E (Some raw) = None)
   \<and> (image_open E w p = Inr img \<and> makedirs E w (target_dir self p) = Inr w1
        \<and> is_png (basename p)
        \<and> save_error E (snd (avoid_collision w1 (target_dir self p) (basename p)))
             (fst (avoid_collision w1 (target_dir self p) (basename p)))
             \<lparr>w_source = p, w_quality = quality self, w_lossless = False,
              w_method = Some 6, w_rgb = True,
              w_exif = AList.update 0x010e (exif_comment E img) (exif img)\<rparr> = None \<longrightarrow>
        fst (convert_single_image_with_metadata E self p w)
          = Inr (fst (avoid_collision w1 (target_dir self p) (basename p)))
        \<and> written (snd (convert_single_image_with_metadata E self p w))
          = written w @ [(fst (avoid_collision w1 (target_dir self p) (basename p)),
               \<lparr>w_source = p, w_quality = quality self, w_lossless = False,
                w_method = Some 6, w_rgb = True,
                w_exif = exif_tobytes
                  (AList.update 0x010e (exif_comment E img) (exif img))\<rparr>)])
   \<and> map_of (exif_tobytes (AList.update 0x010e (exif_comment E img) (exif img))) 0x010e
       = Some (''Workflow:'' @ encode_ascii_replace (user_comment E img))
   \<and> (list_all is_ascii raw \<longrightarrow> encode_ascii_replace raw = raw)"
proof (intro conjI impI)
  assume "map_of (info img) ''workflow'' = None"
  then show "exif_comment E img = ''Workflow:''"
    by (simp add: exif_comment_def user_comment_def filter_workflow_def)
next
  assume "map_of (info img) ''workflow'' = Some raw \<and> filter_workflow E (Some raw) = None"
  then show "exif_comment E img = ''Workflow:'' @ raw"
    by (simp add: exif_comment_def user_comment_def)
next
  assume "json_loads E raw = None"
  then show "filter_workflow E (Some raw) = None" by (simp add: filter_workflow_def)
next
  assume "json_loads E raw = Some (JArr xs)"
  then show "filter_workflow E (Some raw) = None" by (simp add: filter_workflow_def)
next
  assume "json_loads E raw = Some (JObj c) \<and> map_of c ''nodes'' = None"
  then show "filter_workflow E (Some raw) = None" by (simp add: filter_workflow_def)
next
  assume "json_loads E raw = Some (JObj c) \<and> map_of c ''nodes'' = Some (JArr nodes)
        \<and> lora_loop (py_eq (num_eq E) (num_eq_bool E)) 0 nodes = None"
  then show "filter_workflow E (Some raw) = None" by (simp add: filter_workflow_def)
next
  assume a: "image_open E w p = Inr img \<and> makedirs E w (target_dir self p) = Inr w1
        \<and> is_png (basename p)
        \<and> save_error E (snd (avoid_collision w1 (target_dir self p) (basename p)))
             (fst (avoid_collision w1 (target_dir self p) (basename p)))
             \<lparr>w_source = p, w_quality = quality self, w_lossless = False,
              w_method = Some 6, w_rgb = True,
              w_exif = AList.update 0x010e (exif_comment E img) (exif img)\<rparr> = None"
  then show "fst (convert_single_image_with_metadata E self p w)
          = Inr (fst (avoid_collision w1 (target_dir self p) (basename p)))"
    by (simp add: convert_single_image_with_metadata_saved(1))
  from a show "written (snd (convert_single_image_with_metadata E self p w))
          = written w @ [(fst (avoid_collision w1 (target_dir self p) (basename p)),
               \<lparr>w_source = p, w_quality = quality self, w_lossless = False,
                w_method = Some 6, w_rgb = True,
                w_exif = exif_tobytes
                  (AList.update 0x010e (exif_comment E img) (exif img))\<rparr>)]"
    by (simp add: convert_single_image_with_metadata_saved(2))
next
  show "map_of (exif_tobytes (AList.update 0x010e (exif_comment E img) (exif img))) 0x010e
       = Some (''Workflow:'' @ encode_ascii_replace (user_comment E img))"
    by (simp only: map_of_exif_tobytes_update exif_comment_def encode_ascii_replace_append
        encode_ascii_replace_prefix)
next
  assume "list_all is_ascii raw"
  then show "encode_ascii_replace raw = raw" by (rule encode_ascii_replace_ascii)
qed

text \<open>
  The theorem at an image without the field, at three texts the parser rejects or that
  lack a node list, and at a workflow in ASCII on which the loop raises after it has
  removed a node: the raw text is embedded unchanged and the conversion succeeds.
\<close>

theorem filter_failure_hands_raw_workflow_to_encoder_witness:
  "map_of (info \<lparr>info = [], exif = []\<rparr>) ''workflow'' = None
   \<and> exif_comment example_workflow_env \<lparr>info = [], exif = []\<rparr> = ''Workflow:''
   \<and> map_of (info \<lparr>info = [(''workflow'', broken_workflow)], exif = []\<rparr>) ''workflow''
       = Some broken_workflow
   \<and> json_loads example_workflow_env ''not json'' = None
   \<and> json_loads example_workflow_env ''[1]'' = Some (JArr [JNum 1])
   \<and> json_loads example_workflow_env ''{}'' = Some (JObj [])
   \<and> map_of ([] :: (string \<times> int json) list) ''nodes'' = None
   \<and> json_loads example_workflow_env broken_workflow
       = Some (JObj [(''nodes'',
                  JArr [JObj [(''type'', JStr ''LoraInfo'')],
                        JObj [(''type'', JStr ''KSampler'')], JNum 5])])
   \<and> lora_loop (py_eq (num_eq example_workflow_env) (num_eq_bool example_workflow_env)) 0
         [JObj [(''type'', JStr ''LoraInfo'')], JObj [(''type'', JStr ''KSampler'')], JNum 5]
       = None
   \<and> filter_workflow example_workflow_env (Some ''not json'') = None
   \<and> filter_workflow example_workflow_env (Some ''[1]'') = None
   \<and> filter_workflow example_workflow_env (Some ''{}'') = None
   \<and> filter_workflow example_workflow_env (Some broken_workflow) = None
   \<and> exif_comment example_workflow_env \<lparr>info = [(''workflow'', broken_workflow)], exif = []\<rparr>
       = ''Workflow:'' @ broken_workflow
   \<and> is_png (basename ''/in/X.png'')
   \<and> image_open example_workflow_env example_world ''/in/X.png''
       = Inr \<lparr>info = [(''workflow'', broken_workflow)], exif = []\<rparr>
   \<and> makedirs example_workflow_env example_world (target_dir example_worker ''/in/X.png'')
       = Inr example_world
   \<and> fst (convert_single_image_with_metadata example_workflow_env example_worker
             ''/in/X.png'' example_world)
       = Inr (fst (avoid_collision example_world (target_dir example_worker ''/in/X.png'')
                     (basename ''/in/X.png'')))
   \<and> list_all is_ascii broken_workflow
   \<and> encode_ascii_replace broken_workflow = broken_workflow
   \<and> convert_single_image_with_metadata example_workflow_env example_worker ''/in/X.png''
        example_world
      = (Inr ''/out/X_2.webp'',
         \<lparr>dirs = [''/out''],
          files = [''/in/X.png'', ''/in/Y.jpg'', ''/out/X.webp'', ''/out/X_1.webp'',
                   ''/out/X_2.webp''],
          written = [(''/out/X_2.webp'',
             \<lparr>w_source = ''/in/X.png'', w_quality = 87, w_lossless = False,
              w_method = Some 6, w_rgb = True,
              w_exif = [(0x010e, ''Workflow:'' @ broken_workflow)]\<rparr>)],
          renamed_files = [''X.png -> X_2.webp'']\<rparr>)"
proof -
  let ?E = example_workflow_env
  let ?img = "\<lparr>info = [(''workflow'', broken_workflow)], exif = []\<rparr>"
  let ?nodes = "[JObj [(''type'', JStr ''LoraInfo'')], JObj [(''type'', JStr ''KSampler'')],
                 JNum 5] :: int json list"
  have h1: "map_of (info \<lparr>info = [], exif = []\<rparr>) ''workflow'' = None" by simp
  have h2: "map_of (info ?img) ''workflow'' = Some broken_workflow" by simp
  have h3: "json_loads ?E ''not json'' = None" by code_simp
  have h4: "json_loads ?E ''[1]'' = Some (JArr [JNum 1])" by code_simp
  have h5: "json_loads ?E ''{}'' = Some (JObj [])" by code_simp
  have h5': "map_of ([] :: (string \<times> int json) list) ''nodes'' = None" by simp
  have h6: "json_loads ?E broken_workflow = Some (JObj [(''nodes'', JArr ?nodes)])"
    by code_simp
  have h6': "map_of [(''nodes'', JArr ?nodes)] ''nodes'' = Some (JArr ?nodes)" by simp
  have h7: "lora_loop (py_eq (num_eq ?E) (num_eq_bool ?E)) 0 ?nodes = None" by code_simp
  have h8: "image_open ?E example_world ''/in/X.png'' = Inr ?img" by code_simp
  have h9: "makedirs ?E example_world (target_dir example_worker ''/in/X.png'')
      = Inr example_world"
    by code_simp
  have h10: "is_png (basename ''/in/X.png'')" by code_simp
  have h11: "save_error ?E x y z = None" for x y z
    by (simp add: example_workflow_env_def example_env_def)
  have h12: "list_all is_ascii broken_workflow" by code_simp
  have e: "convert_single_image_with_metadata ?E example_worker ''/in/X.png'' example_world
      = (Inr ''/out/X_2.webp'',
         \<lparr>dirs = [''/out''],
          files = [''/in/X.png'', ''/in/Y.jpg'', ''/out/X.webp'', ''/out/X_1.webp'',
                   ''/out/X_2.webp''],
          written = [(''/out/X_2.webp'',
             \<lparr>w_source = ''/in/X.png'', w_quality = 87, w_lossless = False,
              w_method = Some 6, w_rgb = True,
              w_exif = [(0x010e, ''Workflow:'' @ broken_workflow)]\<rparr>)],
          renamed_files = [''X.png -> X_2.webp'']\<rparr>)"
    by code_simp
  note A = filter_failure_hands_raw_workflow_to_encoder
    [where img = "\<lparr>info = [], exif = []\<rparr>" and E = ?E and raw = "''not json''"]
  note B = filter_failure_hands_raw_workflow_to_encoder
    [where img = ?img and E = ?E and raw = "''[1]''" and xs = "[JNum 1]"]
  note C = filter_failure_hands_raw_workflow_to_encoder
    [where img = ?img and E = ?E and raw = "''{}''" and c = "[]"]
  note D = filter_failure_hands_raw_workflow_to_encoder
    [where img = ?img and E = ?E and raw = broken_workflow
       and c = "[(''nodes'', JArr ?nodes)]" and nodes = ?nodes and w = example_world
       and p = "''/in/X.png''" and self = example_worker and ?w1.0 = example_world]
  from A h1 h3 have a: "exif_comment ?E \<lparr>info = [], exif = []\<rparr> = ''Workflow:''"
    "filter_workflow ?E (Some ''not json'') = None"
    by blast+
  from B h4 have b: "filter_workflow ?E (Some ''[1]'') = None" by blast
  from C h5 h5' have c: "filter_workflow ?E (Some ''{}'') = None" by blast
  from D h6 h6' h7 have d1: "filter_workflow ?E (Some broken_workflow) = None" by blast
  from D h2 d1 have d2: "exif_comment ?E ?img = ''Workflow:'' @ broken_workflow" by blast
  from D h8 h9 h10 h11
  have d3: "fst (convert_single_image_with_metadata ?E example_worker ''/in/X.png''
      example_world)
    = Inr (fst (avoid_collision example_world (target_dir example_worker ''/in/X.png'')
                  (basename ''/in/X.png'')))"
    by blast
  from D h12 have d4: "encode_ascii_replace broken_workflow = broken_workflow" by blast
  from h1 h2 h3 h4 h5 h5' h6 h7 h8 h9 h10 h12 a b c d1 d2 d3 d4 e show ?thesis by blast
qed

subsection \<open>What the filtering loop removes\<close>

text \<open>
  An item equal to a node of the excluded type is itself of that type, so with a single
  such node in a list of typed nodes \<^verbatim>\<open>remove\<close> takes that very node, and the loop
  returns the list without it.
\<close>

lemma py_eq_JStr: "py_eq ne nb v (JStr t) \<Longrightarrow> v = JStr t"
  by (cases v) simp_all

lemma py_eq_lora:
  assumes eq: "py_eq ne nb y x" and x: "is_lora x" and d: "distinct_keys y"
  shows "is_lora y"
proof -
  from x obtain b where xb: "x = JObj b" and tb: "map_of b ''type'' = Some (JStr ''LoraInfo'')"
    by (cases x) (auto simp: is_lora_def node_type_def)
  from eq xb obtain a where ya: "y = JObj a" by (cases y) simp_all
  from eq have len: "length a = length b"
    and all: "\<forall>kv\<in>set a. \<exists>w. map_of b (fst kv) = Some w \<and> py_eq ne nb (snd kv) w"
    unfolding xb ya by (auto simp: list_all_iff split: option.splits)
  have da: "distinct (map fst a)" using d by (simp add: ya distinct_keys_def)
  have sub: "fst ` set a \<subseteq> fst ` set b"
  proof
    fix k assume "k \<in> fst ` set a"
    then obtain kv where "kv \<in> set a" "fst kv = k" by auto
    with all obtain w where "map_of b k = Some w" by auto
    then show "k \<in> fst ` set b" by (metis map_of_SomeD fst_conv image_eqI)
  qed
  have "card (fst ` set b) \<le> length b"
    by (metis card_length length_map set_map)
  also have "\<dots> = card (fst ` set a)"
    using da len by (metis distinct_card length_map set_map)
  finally have "fst ` set a = fst ` set b"
    using sub by (intro card_seteq) simp_all
  moreover have "''type'' \<in> fst ` set b" using tb by (metis map_of_SomeD fst_conv image_eqI)
  ultimately have "''type'' \<in> fst ` set a" by simp
  then obtain v where v: "map_of a ''type'' = Some v"
    by (metis map_of_eq_None_iff not_None_eq)
  then have "(''type'', v) \<in> set a" by (rule map_of_SomeD)
  with all tb have "py_eq ne nb v (JStr ''LoraInfo'')" by fastforce
  then have "v = JStr ''LoraInfo''" by (rule py_eq_JStr)
  with v show ?thesis by (simp add: ya is_lora_def node_type_def)
qed

lemma lora_loop_nothing_left:
  assumes "\<forall>k. i \<le> k \<and> k < length nodes \<longrightarrow> is_typed (nodes ! k) \<and> \<not> is_lora (nodes ! k)"
  shows "lora_loop eq i nodes = Some nodes"
  using assms
proof (induction "length nodes - i" arbitrary: i)
  case 0
  then show ?case by (subst lora_loop.simps) simp
next
  case (Suc m)
  then have i: "i < length nodes" by simp
  with Suc.prems have t: "is_typed (nodes ! i)" "\<not> is_lora (nodes ! i)" by simp_all
  from Suc have "lora_loop eq (i + 1) nodes = Some nodes" by simp
  with i t show ?case
    by (subst lora_loop.simps) (auto simp: is_typed_def is_lora_def)
qed

lemma list_remove_single:
  assumes "\<forall>y\<in>set pre. \<not> eq y x"
  shows "list_remove eq (pre @ x # post) (length pre) = pre @ post"
proof -
  have "takeWhile (\<lambda>y. \<not> eq y x) pre = pre" using assms by (simp add: takeWhile_eq_all_conv)
  then have tw: "length (takeWhile (\<lambda>y. \<not> eq y x) pre) = length pre" by (simp only:)
  show ?thesis by (simp add: list_remove_def Let_def tw)
qed

lemma lora_loop_single:
  assumes pre: "\<forall>y\<in>set pre. is_typed y \<and> \<not> is_lora y \<and> distinct_keys y"
    and x: "is_lora x"
    and post: "\<forall>y\<in>set post. is_typed y \<and> \<not> is_lora y"
    and i: "i \<le> length pre"
  shows "lora_loop (py_eq ne nb) i (pre @ x # post) = Some (pre @ post)"
  using i
proof (induction "length pre - i" arbitrary: i)
  case 0
  then have i: "i = length pre" by simp
  have "\<forall>y\<in>set pre. \<not> py_eq ne nb y x" using pre x py_eq_lora by blast
  then have rm: "list_remove (py_eq ne nb) (pre @ x # post) (length pre) = pre @ post"
    by (rule list_remove_single)
  have rest: "lora_loop (py_eq ne nb) (Suc (length pre)) (pre @ post) = Some (pre @ post)"
  proof (rule lora_loop_nothing_left, intro allI impI)
    fix k assume k: "Suc (length pre) \<le> k \<and> k < length (pre @ post)"
    then have "(pre @ post) ! k = post ! (k - length pre)" by (simp add: nth_append)
    moreover have "k - length pre < length post" using k by auto
    ultimately show "is_typed ((pre @ post) ! k) \<and> \<not> is_lora ((pre @ post) ! k)"
      using post by simp
  qed
  show ?case unfolding i
    using x by (subst lora_loop.simps) (simp add: is_lora_def rm rest)
next
  case (Suc m)
  then have i: "i < length pre" by simp
  then have "pre ! i \<in> set pre" by simp
  with pre have t: "is_typed (pre ! i)" "\<not> is_lora (pre ! i)" by simp_all
  from Suc have "lora_loop (py_eq ne nb) (i + 1) (pre @ x # post) = Some (pre @ post)" by simp
  with i t show ?case
    by (subst lora_loop.simps) (auto simp: is_typed_def is_lora_def nth_append)
qed

lemma single_excluded_node_is_removed:
  assumes "map_of (info img) ''workflow'' = Some raw"
    and "json_loads E raw = Some (JObj c)"
    and "map_of c ''nodes'' = Some (JArr (pre @ x # post))"
    and "is_lora x"
    and "\<forall>y\<in>set pre. is_typed y \<and> \<not> is_lora y \<and> distinct_keys y"
    and "\<forall>y\<in>set post. is_typed y \<and> \<not> is_lora y"
  shows "exif_comment E img
     = ''Workflow:'' @ json_dumps E (JObj (AList.update ''nodes'' (JArr (pre @ post)) c))"
  using assms(1-3) lora_loop_single [OF assms(5,4,6), of 0 "num_eq E" "num_eq_bool E"]
  by (simp add: exif_comment_def user_comment_def filter_workflow_def)

text \<open>
  Claim C2 at a workflow with two adjacent nodes of the excluded type. The iterator
  moves on to index 1 after the node at index 0 has been removed, so the second node,
  which is at index 0 by then, is never looked at: it stays in the list and in the text
  embedded under tag \<^verbatim>\<open>0x010e\<close>.
\<close>

theorem adjacent_lora_nodes_not_all_removed:
  "lora_loop eq 0
     [JObj [(''id'', JStr ''1''), (''type'', JStr ''LoraInfo'')],
      JObj [(''id'', JStr ''2''), (''type'', JStr ''LoraInfo'')],
      JObj [(''id'', JStr ''3''), (''type'', JStr ''KSampler'')]]
   = Some [JObj [(''id'', JStr ''2''), (''type'', JStr ''LoraInfo'')],
           JObj [(''id'', JStr ''3''), (''type'', JStr ''KSampler'')]]
   \<and> exif_comment
        (E\<lparr>json_loads := (\<lambda>s. Some (JObj [(''nodes'', JArr
             [JObj [(''id'', JStr ''1''), (''type'', JStr ''LoraInfo'')],
              JObj [(''id'', JStr ''2''), (''type'', JStr ''LoraInfo'')],
              JObj [(''id'', JStr ''3''), (''type'', JStr ''KSampler'')]])]))\<rparr>)
        \<lparr>info = [(''workflow'', raw)], exif = []\<rparr>
     = ''Workflow:'' @ json_dumps E (JObj [(''nodes'', JArr
             [JObj [(''id'', JStr ''2''), (''type'', JStr ''LoraInfo'')],
              JObj [(''id'', JStr ''3''), (''type'', JStr ''KSampler'')]])])"
proof -
  let ?n1 = "JObj [(''id'', JStr ''1''), (''type'', JStr ''LoraInfo'')]"
  let ?n2 = "JObj [(''id'', JStr ''2''), (''type'', JStr ''LoraInfo'')]"
  let ?n3 = "JObj [(''id'', JStr ''3''), (''type'', JStr ''KSampler'')]"
  have r: "list_remove eq [?n1, ?n2, ?n3] 0 = [?n2, ?n3]" for eq :: "'n json \<Rightarrow> 'n json \<Rightarrow> bool"
    by (simp add: list_remove_def)
  have 2: "lora_loop eq (Suc (Suc 0)) [?n2, ?n3] = Some [?n2, ?n3]" for eq :: "'n json \<Rightarrow> 'n json \<Rightarrow> bool"
    by (subst lora_loop.simps) simp
  have 1: "lora_loop eq (Suc 0) [?n2, ?n3] = Some [?n2, ?n3]" for eq :: "'n json \<Rightarrow> 'n json \<Rightarrow> bool"
    by (subst lora_loop.simps) (simp add: node_type_def 2)
  have 0: "lora_loop eq 0 [?n1, ?n2, ?n3] = Some [?n2, ?n3]" for eq :: "'n json \<Rightarrow> 'n json \<Rightarrow> bool"
    by (subst lora_loop.simps) (simp add: node_type_def r 1)
  show ?thesis
    by (simp add: 0 exif_comment_def user_comment_def filter_workflow_def)
qed

section \<open>The size of the pool\<close>

text \<open>
  Claim C8 at a request for one thread on a machine with eight: the pool has eight
  workers. \<^verbatim>\<open>convert_images\<close> never reads the spin box, and the worker sizes its pool
  by \<^verbatim>\<open>multiprocessing.cpu_count()\<close>.
\<close>

theorem pool_size_ignores_requested_threads:
  "map_sum id max_workers
     (convert_images example_env
        \<lparr>checkbox = False, same_folder_checkbox = False, cpu_spinbox = 1,
         quality_slider = 87, selected_file_paths = [''/in/X.png''],
         selected_output_dir = ''/out''\<rparr>) = Inr 8
   \<and> hardware_threads example_env = 8
   \<and> convert_images E (gui\<lparr>cpu_spinbox := k\<rparr>) = convert_images E gui
   \<and> max_workers (new_worker E paths out q keep same) = hardware_threads E"
proof -
  have "map_sum id max_workers
     (convert_images example_env
        \<lparr>checkbox = False, same_folder_checkbox = False, cpu_spinbox = 1,
         quality_slider = 87, selected_file_paths = [''/in/X.png''],
         selected_output_dir = ''/out''\<rparr>) = Inr 8"
    by code_simp
  moreover have "hardware_threads example_env = 8" by (simp add: example_env_def)
  moreover have "convert_images E (gui\<lparr>cpu_spinbox := k\<rparr>) = convert_images E gui"
    by (simp add: convert_images_def)
  moreover have "max_workers (new_worker E paths out q keep same) = hardware_threads E"
    by (simp add: max_workers_def new_worker_def)
  ultimately show ?thesis by blast
qed

end
